theory Spec2Isabelle
  imports Main "HOL-Library.Word"
begin

section \<open>Memory, pointers and sizes\<close>

text \<open>
  The header \<^verbatim>\<open>include/formatxx/format.h\<close> works on raw character pointers. A pointer is
  an address counted in units of \<^verbatim>\<open>CharT\<close>; the null pointer is address \<open>0\<close>. The heap maps
  each address to the character stored there. \<^verbatim>\<open>std::size_t\<close> is a 64-bit unsigned
  integer, so every size computed by the code wraps around modulo \<open>2 ^ 64\<close>. The character
  type \<^verbatim>\<open>CharT\<close> is the type parameter \<open>'c\<close>; \<^verbatim>\<open>CharT(0)\<close> is its \<open>0\<close>.
\<close>

type_synonym addr = nat
type_synonym size_t = "64 word"
type_synonym 'c heap = "addr \<Rightarrow> 'c"

definition nullptr :: addr where
  "nullptr = 0"

text \<open>
  The difference \<^verbatim>\<open>p - q\<close> of two pointers, converted to \<^verbatim>\<open>std::size_t\<close> as the
  initialiser \<^verbatim>\<open>_size(last - first)\<close> and the return of \<^verbatim>\<open>size()\<close> do: a negative
  difference wraps around.
\<close>

definition ptr_diff :: "addr \<Rightarrow> addr \<Rightarrow> size_t" where
  "ptr_diff p q = word_of_int (int p - int q)"

section \<open>\<^verbatim>\<open>basic_string_view\<close>\<close>

text \<open>The two private members \<^verbatim>\<open>_begin\<close> and \<^verbatim>\<open>_size\<close>.\<close>

record basic_string_view =
  sv_begin :: addr
  sv_size :: size_t

text \<open>\<^verbatim>\<open>basic_string_view() = default\<close>, with the default member initialisers.\<close>

definition basic_string_view_default :: basic_string_view where
  "basic_string_view_default = \<lparr>sv_begin = nullptr, sv_size = 0\<rparr>"

text \<open>\<^verbatim>\<open>basic_string_view(CharT const* first, CharT const* last)\<close>\<close>

definition basic_string_view_range :: "addr \<Rightarrow> addr \<Rightarrow> basic_string_view" where
  "basic_string_view_range first lst = \<lparr>sv_begin = first, sv_size = ptr_diff lst first\<rparr>"

text \<open>\<^verbatim>\<open>basic_string_view(CharT const* nstr, std::size_t size)\<close>\<close>

definition basic_string_view_n :: "addr \<Rightarrow> size_t \<Rightarrow> basic_string_view" where
  "basic_string_view_n nstr sz = \<lparr>sv_begin = nstr, sv_size = sz\<rparr>"

text \<open>
  \<^verbatim>\<open>std::char_traits<CharT>::length(zstr)\<close> is the standard library's scan for the first
  \<^verbatim>\<open>CharT(0)\<close> at or after \<^verbatim>\<open>zstr\<close>. On a heap with no terminator the scan never
  returns, which is the value \<open>None\<close>.
\<close>

partial_function (option) length_from :: "('c::zero) heap \<Rightarrow> addr \<Rightarrow> nat \<Rightarrow> nat option" where
  "length_from h zstr i = (if h (zstr + i) = 0 then Some i else length_from h zstr (i + 1))"

definition char_traits_length :: "('c::zero) heap \<Rightarrow> addr \<Rightarrow> size_t option" where
  "char_traits_length h zstr = map_option word_of_nat (length_from h zstr 0)"

text \<open>\<^verbatim>\<open>basic_string_view(CharT const* zstr)\<close>\<close>

definition basic_string_view_zstr :: "('c::zero) heap \<Rightarrow> addr \<Rightarrow> basic_string_view option" where
  "basic_string_view_zstr h zstr =
     map_option (\<lambda>n. \<lparr>sv_begin = zstr, sv_size = n\<rparr>) (char_traits_length h zstr)"

text \<open>The implicitly defined copy constructor copies the two members.\<close>

definition basic_string_view_copy :: "basic_string_view \<Rightarrow> basic_string_view" where
  "basic_string_view_copy other = \<lparr>sv_begin = sv_begin other, sv_size = sv_size other\<rparr>"

definition data :: "basic_string_view \<Rightarrow> addr" where
  "data v = sv_begin v"

definition size_sv :: "basic_string_view \<Rightarrow> size_t" where
  "size_sv v = sv_size v"

definition empty :: "basic_string_view \<Rightarrow> bool" where
  "empty v = (sv_size v = 0)"

definition begin_sv :: "basic_string_view \<Rightarrow> addr" where
  "begin_sv v = sv_begin v"

definition end_sv :: "basic_string_view \<Rightarrow> addr" where
  "end_sv v = sv_begin v + unat (sv_size v)"

text \<open>The characters a view denotes on a heap: those from \<^verbatim>\<open>begin()\<close> up to \<^verbatim>\<open>end()\<close>.\<close>

definition chars_of :: "'c heap \<Rightarrow> basic_string_view \<Rightarrow> 'c list" where
  "chars_of h v = map h [begin_sv v ..< end_sv v]"

section \<open>\<^verbatim>\<open>basic_fixed_writer\<close>\<close>

text \<open>
  The member \<^verbatim>\<open>_last\<close> and the address of the member array \<^verbatim>\<open>_buffer\<close>; the elements of
  the array live on the heap. The capacity \<^verbatim>\<open>SizeN\<close> is a template parameter of type
  \<^verbatim>\<open>std::size_t\<close> and is passed to each operation that uses it. The declaration
  \<^verbatim>\<open>CharT _buffer[SizeN] = {CharT(0),}\<close> has one initialiser, so it is only well formed for
  \<^verbatim>\<open>SizeN\<close> of at least one.
\<close>

record basic_fixed_writer =
  last_ptr :: addr
  buffer :: addr

text \<open>
  Construction of a writer whose array is placed at address \<open>this\<close>: the default member
  initialisers \<^verbatim>\<open>_last = _buffer\<close> and \<^verbatim>\<open>_buffer[SizeN] = {CharT(0),}\<close>, which sets every
  element of the array to zero.
\<close>

definition basic_fixed_writer_init ::
  "size_t \<Rightarrow> ('c::zero) heap \<Rightarrow> addr \<Rightarrow> 'c heap \<times> basic_fixed_writer" where
  "basic_fixed_writer_init SizeN h this =
     ((\<lambda>a. if this \<le> a \<and> a < this + unat SizeN then 0 else h a),
      \<lparr>last_ptr = this, buffer = this\<rparr>)"

definition view :: "basic_fixed_writer \<Rightarrow> basic_string_view" where
  "view w = basic_string_view_range (buffer w) (last_ptr w)"

definition clear :: "basic_fixed_writer \<Rightarrow> basic_fixed_writer" where
  "clear w = w\<lparr>last_ptr := buffer w\<rparr>"

definition size_fw :: "basic_fixed_writer \<Rightarrow> size_t" where
  "size_fw w = ptr_diff (last_ptr w) (buffer w)"

definition c_str :: "basic_fixed_writer \<Rightarrow> addr" where
  "c_str w = buffer w"

text \<open>
  \<^verbatim>\<open>std::memcpy(dst, src, n)\<close> copies \<open>n\<close> characters. The standard leaves the copy of
  overlapping ranges undefined, which is the fault \<open>Overlapping_copy\<close>.
\<close>

datatype fault = Overlapping_copy

definition ranges_overlap :: "addr \<Rightarrow> addr \<Rightarrow> nat \<Rightarrow> bool" where
  "ranges_overlap dst src n = (dst < src + n \<and> src < dst + n)"

definition memcpy :: "'c heap \<Rightarrow> addr \<Rightarrow> addr \<Rightarrow> nat \<Rightarrow> fault + 'c heap" where
  "memcpy h dst src n =
     (if ranges_overlap dst src n then Inl Overlapping_copy
      else Inr (\<lambda>a. if dst \<le> a \<and> a < dst + n then h (src + (a - dst)) else h a))"

text \<open>
  \<^verbatim>\<open>basic_fixed_writer<CharT, SizeN>::write\<close>, statement by statement: the remaining
  capacity and the copied length in \<^verbatim>\<open>std::size_t\<close> arithmetic, the copy to \<^verbatim>\<open>_last\<close>,
  the advance of \<^verbatim>\<open>_last\<close>, and the terminator stored at the new \<^verbatim>\<open>_last\<close>. Addresses
  count characters, so the \<^verbatim>\<open>length * sizeof(CharT)\<close> bytes of the copy are \<open>length\<close>
  characters. The function returns nothing and has no failure path of its own; the only
  fault of the model is the undefined copy of overlapping ranges.
\<close>

definition write_fw ::
  "size_t \<Rightarrow> ('c::zero) heap \<Rightarrow> basic_fixed_writer \<Rightarrow> basic_string_view
     \<Rightarrow> fault + ('c heap \<times> basic_fixed_writer)" where
  "write_fw SizeN h w str =
     (let remaining = SizeN - size_fw w - 1;
          len = (if remaining < size_sv str then remaining else size_sv str)
      in case memcpy h (last_ptr w) (data str) (unat len) of
           Inl e \<Rightarrow> Inl e
         | Inr h1 \<Rightarrow>
             let w1 = w\<lparr>last_ptr := last_ptr w + unat len\<rparr>
             in Inr (h1(last_ptr w1 := 0), w1))"

section \<open>Rendering routines, thunks and the argument binder\<close>

text \<open>
  A rendering routine \<^verbatim>\<open>format_value(out, value, spec)\<close> changes the writer it is given;
  \<open>'w\<close> is the state of that writer. The routines for the built-in types are declared in
  the header and defined elsewhere, so the forwarding overloads below take the routine
  they forward to as a parameter.
\<close>

type_synonym ('w, 'a) format_value = "'w \<Rightarrow> 'a \<Rightarrow> basic_string_view \<Rightarrow> 'w"

text \<open>
  The overload for enumerations: \<^verbatim>\<open>format_value(out, std::underlying_type_t<EnumT>(value), spec)\<close>.
  The conversion of an enumerator to its underlying integer type is \<open>underlying_type_t\<close>.
\<close>

definition format_value_enum ::
  "('w, 'u) format_value \<Rightarrow> ('e \<Rightarrow> 'u) \<Rightarrow> ('w, 'e) format_value" where
  "format_value_enum format_value underlying_type_t out v spec =
     format_value out (underlying_type_t v) spec"









text \<open>
  \<^verbatim>\<open>BasicFormatterThunk\<close> and \<^verbatim>\<open>format_value_thunk<CharT, T>\<close>: the thunk reads the
  argument of type \<^verbatim>\<open>T\<close> stored at \<^verbatim>\<open>ptr\<close> (the parameter \<open>load\<close>) and calls its
  rendering routine.
\<close>

type_synonym 'w BasicFormatterThunk = "'w \<Rightarrow> addr \<Rightarrow> basic_string_view \<Rightarrow> 'w"

definition format_value_thunk ::
  "('w, 'a) format_value \<Rightarrow> (addr \<Rightarrow> 'a) \<Rightarrow> 'w BasicFormatterThunk" where
  "format_value_thunk format_value load out ptr spec = format_value out (load ptr) spec"

text \<open>
  \<^verbatim>\<open>formatxx::format\<close> (both character widths have the same body) and
  \<^verbatim>\<open>formatxx::printf\<close>. The parameter pack \<^verbatim>\<open>args\<close> is the list of its expansions: each
  argument is the pair of \<^verbatim>\<open>std::addressof(arg)\<close> and the thunk
  \<^verbatim>\<open>&format_value_thunk<CharT, Arg>\<close> of its type. A thunk pointer is \<open>Some\<close> thunk or the
  null pointer \<open>None\<close>. The engine \<^verbatim>\<open>format_impl\<close> or \<^verbatim>\<open>printf_impl\<close> is only declared
  in the header and is the first parameter.
\<close>

definition format_fx ::
  "('w \<Rightarrow> 'v \<Rightarrow> size_t \<Rightarrow> 'f option list \<Rightarrow> addr list \<Rightarrow> 'r)
     \<Rightarrow> 'w \<Rightarrow> 'v \<Rightarrow> (addr \<times> 'f) list \<Rightarrow> 'r" where
  "format_fx format_impl writer fmt args =
     (let values = map fst args @ [nullptr];
          funcs = map (\<lambda>arg. Some (snd arg)) args @ [None]
      in format_impl writer fmt (word_of_nat (length args)) funcs values)"

definition printf_fx ::
  "('w \<Rightarrow> 'v \<Rightarrow> size_t \<Rightarrow> 'f option list \<Rightarrow> addr list \<Rightarrow> 'r)
     \<Rightarrow> 'w \<Rightarrow> 'v \<Rightarrow> (addr \<times> 'f) list \<Rightarrow> 'r" where
  "printf_fx printf_impl writer fmt args =
     (let values = map fst args @ [nullptr];
          funcs = map (\<lambda>arg. Some (snd arg)) args @ [None]
      in printf_impl writer fmt (word_of_nat (length args)) funcs values)"

text \<open>
  An engine that only records what it is handed, to observe the arrays and the count that
  reach the engine.
\<close>

definition recording_impl ::
  "'w \<Rightarrow> 'v \<Rightarrow> size_t \<Rightarrow> 'f option list \<Rightarrow> addr list
     \<Rightarrow> 'w \<times> 'v \<times> size_t \<times> 'f option list \<times> addr list" where
  "recording_impl writer fmt count funcs values = (writer, fmt, count, funcs, values)"

section \<open>The two engines\<close>

text \<open>
  The engines work on the text of the template and on a sink they only append to. The
  sink is the text written so far, and a thunk maps the sink, the address of its argument
  and the text of a spec to the sink with the rendering appended.
\<close>

type_synonym sink = string
type_synonym thunk = "sink \<Rightarrow> addr \<Rightarrow> string \<Rightarrow> sink"

text \<open>
  The ways a scan can stop early. \<open>Template_fault\<close> is the template fault of the spec.
  \<open>Null_thunk\<close> is a call through a null thunk, and \<open>Out_of_bounds_read\<close> is a read of an
  argument array at or beyond its length.
\<close>

datatype engine_fault = Template_fault | Null_thunk | Out_of_bounds_read

text \<open>
  The state of one scan: the sink, the counter of the engine, and the positions of the
  argument arrays whose thunks have been invoked so far, oldest first.
\<close>

record engine_state =
  out :: sink
  counter :: nat
  invoked :: "nat list"

definition engine_init :: "sink \<Rightarrow> engine_state" where
  "engine_init writer = \<lparr>out = writer, counter = 0, invoked = []\<rparr>"

definition emit :: "char \<Rightarrow> engine_state \<Rightarrow> engine_state" where
  "emit c st = st\<lparr>out := out st @ [c]\<rparr>"

definition read_array :: "'a list \<Rightarrow> nat \<Rightarrow> 'a option" where
  "read_array xs i = (if i < length xs then Some (xs ! i) else None)"

text \<open>
  Modelled from the spec: the resolution of a placeholder index against the argument
  list, which is part of the absent \<^verbatim>\<open>format_impl\<close> and \<^verbatim>\<open>printf_impl\<close>. An index at or
  beyond the argument count is a template fault; otherwise the thunk at that position is
  invoked with the sink, the argument address at that position and the spec.
\<close>

definition invoke ::
  "nat \<Rightarrow> thunk option list \<Rightarrow> addr list \<Rightarrow> nat \<Rightarrow> string \<Rightarrow> engine_state
     \<Rightarrow> engine_fault option \<times> engine_state" where
  "invoke count funcs values i spec st =
     (if count \<le> i then (Some Template_fault, st)
      else case (read_array funcs i, read_array values i) of
             (Some (Some f), Some v) \<Rightarrow>
               (None, st\<lparr>out := f (out st) v spec, invoked := invoked st @ [i]\<rparr>)
           | (Some None, Some v) \<Rightarrow> (Some Null_thunk, st)
           | _ \<Rightarrow> (Some Out_of_bounds_read, st))"

definition is_digit :: "char \<Rightarrow> bool" where
  "is_digit c = (c \<in> set ''0123456789'')"

definition decimal :: "string \<Rightarrow> nat" where
  "decimal ds = foldl (\<lambda>n c. 10 * n + (of_char c - 48)) 0 ds"

text \<open>
  The two states of the brace-style scan. \<open>Placeholder ds sp\<close> holds the digits of the
  index read so far and, once the separator has been read, the spec text read so far.
\<close>

datatype mode = Literal | Placeholder string "string option"

text \<open>
  Modelled from the spec: the end of a placeholder in the absent \<^verbatim>\<open>format_impl\<close>. With no
  digits the index is the counter, which is incremented by one after the use; with digits
  the index is their decimal value and the counter is neither read nor changed.
\<close>

definition close_placeholder ::
  "nat \<Rightarrow> thunk option list \<Rightarrow> addr list \<Rightarrow> string \<Rightarrow> string \<Rightarrow> engine_state
     \<Rightarrow> engine_fault option \<times> engine_state" where
  "close_placeholder count funcs values ds spec st =
     (if ds = [] then
        (case invoke count funcs values (counter st) spec st of
           (None, st') \<Rightarrow> (None, st'\<lparr>counter := counter st' + 1\<rparr>)
         | (Some e, st') \<Rightarrow> (Some e, st'))
      else invoke count funcs values (decimal ds) spec st)"

text \<open>
  Modelled from the spec: the scan of the absent \<^verbatim>\<open>format_impl\<close> (section 4.5 and the
  grammar of section 6). In the literal state a doubled brace emits one brace, a single
  opening brace starts a placeholder, and any other character is copied. In the
  placeholder state the scan reads optional decimal digits, then an optional \<open>:\<close> and
  the spec text up to the closing brace. The spec names an unterminated brace and a
  non-numeric index as template faults; a closing brace that is not doubled matches no
  rule of the grammar and is a template fault here too. A fault stops the scan and keeps
  what the sink holds.
\<close>

fun format_scan ::
  "nat \<Rightarrow> thunk option list \<Rightarrow> addr list \<Rightarrow> mode \<Rightarrow> string \<Rightarrow> engine_state
     \<Rightarrow> engine_fault option \<times> engine_state" where
  "format_scan count funcs values Literal [] st = (None, st)"
| "format_scan count funcs values Literal (c # cs) st =
     (if c = CHR ''{'' then
        (case cs of
           [] \<Rightarrow> (Some Template_fault, st)
         | d # cs' \<Rightarrow>
             if d = CHR ''{'' then format_scan count funcs values Literal cs' (emit CHR ''{'' st)
             else format_scan count funcs values (Placeholder [] None) cs st)
      else if c = CHR ''}'' then
        (case cs of
           [] \<Rightarrow> (Some Template_fault, st)
         | d # cs' \<Rightarrow>
             if d = CHR ''}'' then format_scan count funcs values Literal cs' (emit CHR ''}'' st)
             else (Some Template_fault, st))
      else format_scan count funcs values Literal cs (emit c st))"
| "format_scan count funcs values (Placeholder ds sp) [] st = (Some Template_fault, st)"
| "format_scan count funcs values (Placeholder ds None) (c # cs) st =
     (if c = CHR ''}'' then
        (case close_placeholder count funcs values ds [] st of
           (None, st') \<Rightarrow> format_scan count funcs values Literal cs st'
         | (Some e, st') \<Rightarrow> (Some e, st'))
      else if c = CHR '':'' then format_scan count funcs values (Placeholder ds (Some [])) cs st
      else if is_digit c then format_scan count funcs values (Placeholder (ds @ [c]) None) cs st
      else (Some Template_fault, st))"
| "format_scan count funcs values (Placeholder ds (Some spec)) (c # cs) st =
     (if c = CHR ''}'' then
        (case close_placeholder count funcs values ds spec st of
           (None, st') \<Rightarrow> format_scan count funcs values Literal cs st'
         | (Some e, st') \<Rightarrow> (Some e, st'))
      else format_scan count funcs values (Placeholder ds (Some (spec @ [c]))) cs st)"

text \<open>
  Modelled from the spec: \<^verbatim>\<open>_detail::format_impl\<close>, declared in the header and defined
  elsewhere. The scan starts in the literal state with the counter at zero.
\<close>

definition format_impl ::
  "sink \<Rightarrow> string \<Rightarrow> size_t \<Rightarrow> thunk option list \<Rightarrow> addr list
     \<Rightarrow> engine_fault option \<times> engine_state" where
  "format_impl writer fmt count funcs values =
     format_scan (unat count) funcs values Literal fmt (engine_init writer)"

text \<open>
  The parts of a conversion specifier, in the order of the printf grammar
  \<^verbatim>\<open>%[flags][width][.precision][length]conversion\<close>.
\<close>

datatype stage = Flags | Width | Precision | Length_qualifier

datatype printf_mode = Text | Specifier stage string

definition is_flag :: "char \<Rightarrow> bool" where
  "is_flag c = (c \<in> set ''-+ #0'')"

definition is_length_qualifier :: "char \<Rightarrow> bool" where
  "is_length_qualifier c = (c \<in> set ''hlLjzt'')"

text \<open>
  Modelled from the spec: where the character \<open>c\<close> continues a conversion specifier that
  is in the given stage, the stage it belongs to; \<open>None\<close> where it is the conversion
  character.
\<close>

fun next_stage :: "stage \<Rightarrow> char \<Rightarrow> stage option" where
  "next_stage Flags c =
     (if is_flag c then Some Flags
      else if is_digit c then Some Width
      else if c = CHR ''.'' then Some Precision
      else if is_length_qualifier c then Some Length_qualifier
      else None)"
| "next_stage Width c =
     (if is_digit c then Some Width
      else if c = CHR ''.'' then Some Precision
      else if is_length_qualifier c then Some Length_qualifier
      else None)"
| "next_stage Precision c =
     (if is_digit c then Some Precision
      else if is_length_qualifier c then Some Length_qualifier
      else None)"
| "next_stage Length_qualifier c =
     (if is_length_qualifier c then Some Length_qualifier else None)"

text \<open>
  Modelled from the spec: the scan of the absent \<^verbatim>\<open>printf_impl\<close> (section 4.6). A doubled
  \<open>%\<close> emits one \<open>%\<close>. Any other \<open>%\<close> starts a conversion specifier, which ends at its
  mandatory conversion character and consumes the next unused argument; the thunk
  receives the text of the specifier. A template that ends inside a specifier, or a
  specifier with no argument left, is a template fault.
\<close>

fun printf_scan ::
  "nat \<Rightarrow> thunk option list \<Rightarrow> addr list \<Rightarrow> printf_mode \<Rightarrow> string \<Rightarrow> engine_state
     \<Rightarrow> engine_fault option \<times> engine_state" where
  "printf_scan count funcs values Text [] st = (None, st)"
| "printf_scan count funcs values Text (c # cs) st =
     (if c = CHR ''%'' then
        (case cs of
           [] \<Rightarrow> (Some Template_fault, st)
         | d # cs' \<Rightarrow>
             if d = CHR ''%'' then printf_scan count funcs values Text cs' (emit CHR ''%'' st)
             else printf_scan count funcs values (Specifier Flags []) cs st)
      else printf_scan count funcs values Text cs (emit c st))"
| "printf_scan count funcs values (Specifier sg txt) [] st = (Some Template_fault, st)"
| "printf_scan count funcs values (Specifier sg txt) (c # cs) st =
     (case next_stage sg c of
        Some sg' \<Rightarrow> printf_scan count funcs values (Specifier sg' (txt @ [c])) cs st
      | None \<Rightarrow>
          (case invoke count funcs values (counter st) (txt @ [c]) st of
             (None, st') \<Rightarrow>
               printf_scan count funcs values Text cs (st'\<lparr>counter := counter st' + 1\<rparr>)
           | (Some e, st') \<Rightarrow> (Some e, st')))"

text \<open>
  Modelled from the spec: \<^verbatim>\<open>_detail::printf_impl\<close>, declared in the header and defined
  elsewhere.
\<close>

definition printf_impl ::
  "sink \<Rightarrow> string \<Rightarrow> size_t \<Rightarrow> thunk option list \<Rightarrow> addr list
     \<Rightarrow> engine_fault option \<times> engine_state" where
  "printf_impl writer fmt count funcs values =
     printf_scan (unat count) funcs values Text fmt (engine_init writer)"

section \<open>Quantities and example data used in the statements\<close>

text \<open>
  The number of characters a write is said to append: the smaller of \<^verbatim>\<open>str.size()\<close> and
  \<^verbatim>\<open>SizeN - size() - 1\<close>, as natural numbers.
\<close>

definition appended_count :: "size_t \<Rightarrow> basic_fixed_writer \<Rightarrow> basic_string_view \<Rightarrow> nat" where
  "appended_count SizeN w str = min (unat (size_sv str)) (unat SizeN - unat (size_fw w) - 1)"

text \<open>
  A heap of narrow characters that holds the text \<open>hello\<close> at addresses 100 to 104 and
  zero everywhere else, and the view of that text.
\<close>

definition hello_heap :: "8 word heap" where
  "hello_heap = (\<lambda>a. if 100 \<le> a \<and> a < 105 then map of_char ''hello'' ! (a - 100) else 0)"

definition hello_view :: basic_string_view where
  "hello_view = basic_string_view_n 100 5"

text \<open>A writer of capacity 4 constructed at address 10 on that heap.\<close>

definition hello_writer_heap :: "8 word heap" where
  "hello_writer_heap = fst (basic_fixed_writer_init 4 hello_heap 10)"

definition hello_writer :: basic_fixed_writer where
  "hello_writer = snd (basic_fixed_writer_init 4 hello_heap (10::nat) :: 8 word heap \<times> basic_fixed_writer)"

text \<open>
  Two arguments stored at addresses 200 and 201 whose thunks append the letters \<open>A\<close> and
  \<open>B\<close>, and the two arrays the binder builds for them.
\<close>

definition letter_thunk :: "char \<Rightarrow> thunk" where
  "letter_thunk c = (\<lambda>written v spec. written @ [c])"

definition two_args :: "(addr \<times> thunk) list" where
  "two_args = [(200, letter_thunk CHR ''A''), (201, letter_thunk CHR ''B'')]"

definition two_funcs :: "thunk option list" where
  "two_funcs = [Some (letter_thunk CHR ''A''), Some (letter_thunk CHR ''B''), None]"

definition two_values :: "addr list" where
  "two_values = [200, 201, nullptr]"

text \<open>A scan state whose counter has passed both arguments.\<close>

definition exhausted_state :: engine_state where
  "exhausted_state = \<lparr>out = [], counter = 2, invoked = []\<rparr>"

section \<open>Sizes and pointer differences\<close>

lemma ptr_diff_of_nat: "q \<le> p \<Longrightarrow> ptr_diff p q = word_of_nat (p - q)"
  by (simp add: ptr_diff_def of_nat_diff)

lemma unat_ptr_diff:
  assumes "q \<le> p" and "p - q < 2 ^ 64"
  shows "unat (ptr_diff p q) = p - q"
proof -
  have "unat (ptr_diff p q) = (p - q) mod 2 ^ LENGTH(64)"
    by (simp only: ptr_diff_of_nat [OF assms(1)] unat_of_nat)
  also have "\<dots> = p - q" using assms(2) by simp
  finally show ?thesis .
qed

lemma unat_size_fw:
  "buffer w \<le> last_ptr w \<Longrightarrow> last_ptr w < buffer w + unat (SizeN :: size_t)
   \<Longrightarrow> unat (size_fw w) = last_ptr w - buffer w"
proof -
  assume a: "buffer w \<le> last_ptr w" "last_ptr w < buffer w + unat SizeN"
  have "unat SizeN < 2 ^ 64" using unsigned_less [of SizeN] by simp
  with a have "last_ptr w - buffer w < 2 ^ 64" by linarith
  with a show ?thesis by (simp add: size_fw_def unat_ptr_diff)
qed

lemma unat_remaining:
  "buffer w \<le> last_ptr w \<Longrightarrow> last_ptr w < buffer w + unat (SizeN :: size_t)
   \<Longrightarrow> unat (SizeN - size_fw w - 1) = unat SizeN - unat (size_fw w) - 1"
proof -
  assume a: "buffer w \<le> last_ptr w" "last_ptr w < buffer w + unat SizeN"
  have s: "unat (size_fw w) = last_ptr w - buffer w" using a by (rule unat_size_fw)
  with a have lt: "unat (size_fw w) < unat SizeN" by linarith
  then have le: "size_fw w \<le> SizeN" by (simp add: word_le_nat_alt)
  have d: "unat (SizeN - size_fw w) = unat SizeN - unat (size_fw w)"
    using le by (rule unat_sub)
  with lt have "0 < unat (SizeN - size_fw w)" by linarith
  then have nz: "SizeN - size_fw w \<noteq> 0" by (simp add: unat_gt_0)
  have "unat (SizeN - size_fw w - 1) = unat (SizeN - size_fw w) - 1"
    using nz by (rule unat_minus_one)
  with d show ?thesis by simp
qed

lemma unat_len:
  "unat (if (r::size_t) < s then r else s) = min (unat s) (unat r)"
  by (auto simp: word_less_nat_alt min_def)

lemma map_upt_shift: "map (\<lambda>a. f (s + (a - d))) [d ..< d + n] = map f [s ..< s + (n::nat)]"
  by (induction n) simp_all

lemma chars_of_view:
  assumes a: "buffer w \<le> last_ptr w" "last_ptr w < buffer w + unat (SizeN :: size_t)"
  shows "chars_of h (view w) = map h [buffer w ..< last_ptr w]"
proof -
  have b: "unat (ptr_diff (last_ptr w) (buffer w)) = last_ptr w - buffer w"
    using unat_size_fw [OF a] by (simp only: size_fw_def)
  have "end_sv (view w) = last_ptr w"
    unfolding end_sv_def view_def basic_string_view_range_def
    apply (simp only: basic_string_view.simps b)
    using a(1) apply simp
    done
  moreover have "begin_sv (view w) = buffer w"
    by (simp add: begin_sv_def view_def basic_string_view_range_def)
  ultimately show ?thesis by (simp only: chars_of_def)
qed

lemma take_chars_of:
  "n \<le> unat (size_sv str) \<Longrightarrow> take n (chars_of h str) = map h [data str ..< data str + n]"
  by (simp add: chars_of_def begin_sv_def end_sv_def data_def size_sv_def take_map min_def)

lemma length_from_terminator:
  fixes h :: "('c::zero) heap"
  assumes "h (zstr + n) = 0" and "\<forall>i. k \<le> i \<and> i < n \<longrightarrow> h (zstr + i) \<noteq> 0" and "k \<le> n"
  shows "length_from h zstr k = Some n"
  using assms
proof (induction "n - k" arbitrary: k)
  case 0
  then have "k = n" by simp
  with "0.prems"(1) show ?case by (subst length_from.simps) simp
next
  case (Suc d)
  then have lt: "k < n" by simp
  with Suc.prems(2) have nz: "h (zstr + k) \<noteq> 0" by simp
  have "length_from h zstr (k + 1) = Some n"
  proof (rule Suc.hyps(1))
    show "d = n - (k + 1)" using Suc.hyps(2) by simp
    show "h (zstr + n) = 0" by (rule Suc.prems(1))
    show "\<forall>i. k + 1 \<le> i \<and> i < n \<longrightarrow> h (zstr + i) \<noteq> 0" using Suc.prems(2) by simp
    show "k + 1 \<le> n" using lt by simp
  qed
  with nz show ?case by (subst length_from.simps) simp
qed

lemma basic_string_view_zstr_terminated:
  fixes h :: "('c::zero) heap"
  assumes "h (zstr + n) = 0" and "\<forall>i<n. h (zstr + i) \<noteq> 0"
  shows "basic_string_view_zstr h zstr = Some \<lparr>sv_begin = zstr, sv_size = word_of_nat n\<rparr>"
proof -
  have "length_from h zstr 0 = Some n"
    using assms by (intro length_from_terminator) simp_all
  then show ?thesis by (simp add: basic_string_view_zstr_def char_traits_length_def)
qed

lemma hello_writer_simps:
  "buffer hello_writer = 10" "last_ptr hello_writer = 10" "size_fw hello_writer = 0"
  by (simp_all add: hello_writer_def basic_fixed_writer_init_def size_fw_def ptr_diff_def)

lemma hello_count: "appended_count 4 hello_writer hello_view = 3"
  by (simp add: appended_count_def hello_writer_simps hello_view_def basic_string_view_n_def
      size_sv_def)

lemma hello_chars: "chars_of hello_writer_heap hello_view = map of_char ''hello''"
  unfolding chars_of_def hello_view_def basic_string_view_n_def begin_sv_def end_sv_def
    hello_writer_heap_def basic_fixed_writer_init_def hello_heap_def
  by (simp add: upt_rec)

lemma hello_nonzero: "\<forall>i<5. hello_heap (100 + i) \<noteq> 0"
proof (intro allI impI)
  fix i :: nat
  assume "i < 5"
  then have "i = 0 \<or> i = 1 \<or> i = 2 \<or> i = 3 \<or> i = 4" by arith
  then show "hello_heap (100 + i) \<noteq> 0"
    by (elim disjE) (simp_all add: hello_heap_def)
qed

lemma init_invariant:
  "SizeN \<noteq> 0 \<Longrightarrow> basic_fixed_writer_init SizeN h this = (h', w)
   \<Longrightarrow> buffer w \<le> last_ptr w \<and> last_ptr w < buffer w + unat SizeN"
  by (auto simp: basic_fixed_writer_init_def unat_gt_0)

lemma clear_invariant:
  "buffer w \<le> last_ptr w \<and> last_ptr w < buffer w + unat SizeN
   \<Longrightarrow> buffer (clear w) \<le> last_ptr (clear w) \<and> last_ptr (clear w) < buffer (clear w) + unat SizeN"
  by (auto simp: clear_def)

lemma size_fw_clear: "size_fw (clear w) = 0"
  by (simp add: clear_def size_fw_def ptr_diff_def)

text \<open>
  \<^verbatim>\<open>clear()\<close> stores nothing, so the character at position \<^verbatim>\<open>size()\<close> of a cleared
  writer is whatever the first character of the buffer was.
\<close>

lemma clear_first_character: "h (c_str (clear w) + unat (size_fw (clear w))) = h (buffer w)"
  by (simp add: size_fw_clear) (simp add: c_str_def clear_def)

section \<open>Views\<close>

text \<open>
  Claim C8. A view constructed from a terminated character sequence has the number of
  characters before the terminator as its size, found by scanning; a view constructed
  from a pair of pointers has the difference of the two as its size; a copy of a view
  has the same pointer and the same size, so it denotes the same characters of whatever
  heap it is read on; and \<^verbatim>\<open>empty()\<close> holds exactly when the size is zero.
\<close>

theorem basic_string_view_sizes:
  fixes h :: "('c::zero) heap"
  shows "(h (zstr + n) = 0 \<and> (\<forall>i<n. h (zstr + i) \<noteq> 0) \<and> n < 2 ^ 64 \<longrightarrow>
           (\<exists>v. basic_string_view_zstr h zstr = Some v \<and> data v = zstr \<and> unat (size_sv v) = n))
       \<and> size_sv (basic_string_view_range first lst) = ptr_diff lst first
       \<and> (first \<le> lst \<and> lst - first < 2 ^ 64 \<longrightarrow>
            unat (size_sv (basic_string_view_range first lst)) = lst - first)
       \<and> basic_string_view_copy v = v
       \<and> data (basic_string_view_copy v) = data v
       \<and> size_sv (basic_string_view_copy v) = size_sv v
       \<and> chars_of h' (basic_string_view_copy v) = chars_of h' v
       \<and> (empty v \<longleftrightarrow> size_sv v = 0)"
proof -
  have z: "h (zstr + n) = 0 \<and> (\<forall>i<n. h (zstr + i) \<noteq> 0) \<and> n < 2 ^ 64 \<longrightarrow>
           (\<exists>v. basic_string_view_zstr h zstr = Some v \<and> data v = zstr \<and> unat (size_sv v) = n)"
  proof (intro impI, elim conjE)
    assume a: "h (zstr + n) = 0" "\<forall>i<n. h (zstr + i) \<noteq> 0" "n < 2 ^ 64"
    have "unat (word_of_nat n :: size_t) = n" using a(3) by (simp add: unat_of_nat)
    with basic_string_view_zstr_terminated [OF a(1,2)]
    show "\<exists>v. basic_string_view_zstr h zstr = Some v \<and> data v = zstr \<and> unat (size_sv v) = n"
      by (simp add: data_def size_sv_def)
  qed
  have r1: "size_sv (basic_string_view_range first lst) = ptr_diff lst first"
    by (simp add: size_sv_def basic_string_view_range_def)
  have r2: "first \<le> lst \<and> lst - first < 2 ^ 64 \<longrightarrow>
            unat (size_sv (basic_string_view_range first lst)) = lst - first"
    by (simp add: r1 unat_ptr_diff)
  have c: "basic_string_view_copy v = v"
    by (simp add: basic_string_view_copy_def)
  have e: "empty v \<longleftrightarrow> size_sv v = 0"
    by (simp add: empty_def size_sv_def)
  show ?thesis
    apply (simp only: c)
    apply (intro conjI)
    apply (rule z, rule r1, rule r2, rule refl, rule refl, rule refl, rule refl, rule e)
    done
qed

theorem basic_string_view_sizes_witness:
  "basic_string_view_zstr hello_heap 100 = Some \<lparr>sv_begin = 100, sv_size = 5\<rparr>
   \<and> unat (size_sv (basic_string_view_range 100 105)) = 5
   \<and> chars_of hello_heap (basic_string_view_copy hello_view) = map of_char ''hello''
   \<and> \<not> empty hello_view"
proof -
  have t: "hello_heap (100 + 5) = 0" by (simp add: hello_heap_def)
  have b: "(5::nat) < 2 ^ 64" by simp
  have r: "(100::nat) \<le> 105 \<and> (105::nat) - 100 < 2 ^ 64" by simp
  note inst = basic_string_view_sizes [of hello_heap 100 5 100 105 hello_view hello_heap]
  from inst t hello_nonzero b
  obtain v where v: "basic_string_view_zstr hello_heap 100 = Some v" "data v = 100"
    "unat (size_sv v) = 5"
    by blast
  from v(3) have "size_sv v = 5" by (simp add: word_unat_eq_iff)
  with v(2) have "v = \<lparr>sv_begin = 100, sv_size = 5\<rparr>"
    by (simp add: data_def size_sv_def)
  with v(1) have 1: "basic_string_view_zstr hello_heap 100 = Some \<lparr>sv_begin = 100, sv_size = 5\<rparr>"
    by simp
  from inst r have "unat (size_sv (basic_string_view_range 100 105)) = 105 - 100" by blast
  then have 2: "unat (size_sv (basic_string_view_range 100 105)) = 5" by simp
  have c: "chars_of hello_heap hello_view = map of_char ''hello''"
    unfolding chars_of_def hello_view_def basic_string_view_n_def begin_sv_def end_sv_def
      hello_heap_def
    by (simp add: upt_rec)
  from inst have "chars_of hello_heap (basic_string_view_copy hello_view)
                 = chars_of hello_heap hello_view" by blast
  with c have 3: "chars_of hello_heap (basic_string_view_copy hello_view) = map of_char ''hello''"
    by simp
  from inst have "empty hello_view \<longleftrightarrow> size_sv hello_view = 0" by blast
  then have 4: "\<not> empty hello_view"
    by (simp add: size_sv_def hello_view_def basic_string_view_n_def)
  from 1 2 3 4 show ?thesis by (intro conjI)
qed

section \<open>The fixed writer\<close>

text \<open>
  Claim C10. A freshly constructed writer is empty and terminated: its cursor is at the
  start of the buffer, \<^verbatim>\<open>size()\<close> is zero, \<^verbatim>\<open>view()\<close> is the empty view at the buffer,
  and \<^verbatim>\<open>c_str()\<close> points at a zero character, so the string read there is empty. The
  capacity is not zero, as the declaration of the buffer requires.
\<close>

theorem fresh_writer_empty:
  fixes h :: "('c::zero) heap"
  assumes cap: "SizeN \<noteq> 0"
    and init: "basic_fixed_writer_init SizeN h this = (h', w)"
  shows "last_ptr w = buffer w
       \<and> size_fw w = 0
       \<and> view w = \<lparr>sv_begin = c_str w, sv_size = 0\<rparr>
       \<and> empty (view w)
       \<and> chars_of h' (view w) = []
       \<and> h' (c_str w) = 0
       \<and> basic_string_view_zstr h' (c_str w) = Some \<lparr>sv_begin = c_str w, sv_size = 0\<rparr>"
proof -
  from init have w: "w = \<lparr>last_ptr = this, buffer = this\<rparr>"
    and h': "h' = (\<lambda>a. if this \<le> a \<and> a < this + unat SizeN then 0 else h a)"
    by (simp_all add: basic_fixed_writer_init_def)
  from cap have pos: "0 < unat SizeN" by (simp add: unat_gt_0)
  have 1: "last_ptr w = buffer w" by (simp add: w)
  have 2: "size_fw w = 0" by (simp add: w size_fw_def ptr_diff_def)
  have 3: "view w = \<lparr>sv_begin = c_str w, sv_size = 0\<rparr>"
    by (simp add: w view_def basic_string_view_range_def c_str_def ptr_diff_def)
  have 4: "empty (view w)" by (simp add: 3 empty_def)
  have 5: "chars_of h' (view w) = []"
    by (simp add: 3 chars_of_def begin_sv_def end_sv_def)
  have 6: "h' (c_str w) = 0" using pos by (simp add: h' w c_str_def)
  have "basic_string_view_zstr h' (c_str w) = Some \<lparr>sv_begin = c_str w, sv_size = word_of_nat 0\<rparr>"
    using 6 by (intro basic_string_view_zstr_terminated) simp_all
  then have 7: "basic_string_view_zstr h' (c_str w) = Some \<lparr>sv_begin = c_str w, sv_size = 0\<rparr>"
    by simp
  from 1 2 3 4 5 6 7 show ?thesis by (intro conjI)
qed

theorem fresh_writer_empty_witness:
  "size_fw hello_writer = 0 \<and> empty (view hello_writer)
   \<and> hello_writer_heap (c_str hello_writer) = 0
   \<and> basic_string_view_zstr hello_writer_heap (c_str hello_writer)
       = Some \<lparr>sv_begin = 10, sv_size = 0\<rparr>"
proof -
  have cap: "(4 :: size_t) \<noteq> 0" by simp
  have init: "basic_fixed_writer_init 4 hello_heap 10 = (hello_writer_heap, hello_writer)"
    by (simp add: hello_writer_heap_def hello_writer_def)
  have "c_str hello_writer = 10" by (simp add: c_str_def hello_writer_simps)
  with fresh_writer_empty [OF cap init] show ?thesis by (simp add: empty_def)
qed

text \<open>
  Claim C1. A write to a writer whose cursor lies inside its buffer, from a text that does
  not overlap the part of the buffer being written, returns without a fault and appends
  exactly the first \<open>min(str.size(), SizeN - size() - 1)\<close> characters of the text: the
  size grows by that count, the content is the old content followed by those characters,
  a terminator follows the content, the size stays at most \<open>SizeN - 1\<close>, and no address
  outside the buffer changes.
\<close>

theorem write_fw_appends:
  fixes h :: "('c::zero) heap"
  assumes inb: "buffer w \<le> last_ptr w" "last_ptr w < buffer w + unat SizeN"
    and dis: "\<not> ranges_overlap (last_ptr w) (data str) (appended_count SizeN w str)"
  shows "\<exists>h' w'. write_fw SizeN h w str = Inr (h', w')
           \<and> buffer w' = buffer w
           \<and> buffer w' \<le> last_ptr w' \<and> last_ptr w' < buffer w' + unat SizeN
           \<and> unat (size_fw w') = unat (size_fw w) + appended_count SizeN w str
           \<and> chars_of h' (view w')
               = chars_of h (view w) @ take (appended_count SizeN w str) (chars_of h str)
           \<and> h' (c_str w' + unat (size_fw w')) = 0
           \<and> unat (size_fw w') \<le> unat SizeN - 1
           \<and> (\<forall>a. a < buffer w \<or> buffer w + unat SizeN \<le> a \<longrightarrow> h' a = h a)"
proof -
  define n where "n = appended_count SizeN w str"
  have n: "n = min (unat (size_sv str)) (unat SizeN - unat (size_fw w) - 1)"
    by (simp add: n_def appended_count_def)
  note dis = dis [folded n_def]
  define len where "len = (if SizeN - size_fw w - 1 < size_sv str then SizeN - size_fw w - 1 else size_sv str)"
  have ulen: "unat len = n"
    unfolding len_def n unat_len using unat_remaining [OF inb] by simp
  define h1 where "h1 = (\<lambda>a. if last_ptr w \<le> a \<and> a < last_ptr w + n then h (data str + (a - last_ptr w)) else h a)"
  define w1 where "w1 = w\<lparr>last_ptr := last_ptr w + n\<rparr>"
  have wr: "write_fw SizeN h w str = Inr (h1(last_ptr w1 := 0), w1)"
    using dis ulen by (simp add: write_fw_def Let_def memcpy_def len_def [symmetric] h1_def w1_def)
  have s0: "unat (size_fw w) = last_ptr w - buffer w" using inb by (rule unat_size_fw)
  have nle: "n \<le> unat SizeN - unat (size_fw w) - 1" using n by simp
  have inb1: "buffer w1 \<le> last_ptr w1" "last_ptr w1 < buffer w1 + unat SizeN"
    using inb nle s0 by (simp_all add: w1_def)
  have s1: "unat (size_fw w1) = last_ptr w1 - buffer w1" using inb1 by (rule unat_size_fw)
  have c0: "chars_of h (view w) = map h [buffer w ..< last_ptr w]"
    using inb by (rule chars_of_view)
  let ?h' = "h1(last_ptr w1 := 0)"
  have c1: "chars_of ?h' (view w1) = map ?h' [buffer w1 ..< last_ptr w1]"
    using inb1 by (rule chars_of_view)
  have split: "[buffer w1 ..< last_ptr w1] = [buffer w ..< last_ptr w] @ [last_ptr w ..< last_ptr w + n]"
    using upt_add_eq_append [OF inb(1), of n] by (simp add: w1_def)
  have old: "map ?h' [buffer w ..< last_ptr w] = map h [buffer w ..< last_ptr w]"
    by (simp add: h1_def w1_def)
  have new: "map ?h' [last_ptr w ..< last_ptr w + n] = map h [data str ..< data str + n]"
  proof -
    have "map ?h' [last_ptr w ..< last_ptr w + n]
        = map (\<lambda>a. h (data str + (a - last_ptr w))) [last_ptr w ..< last_ptr w + n]"
      by (simp add: h1_def w1_def)
    then show ?thesis by (simp only: map_upt_shift)
  qed
  have tk: "take n (chars_of h str) = map h [data str ..< data str + n]"
    using n by (intro take_chars_of) simp
  have content: "chars_of ?h' (view w1) = chars_of h (view w) @ take n (chars_of h str)"
    by (simp only: c0 c1 split map_append old new tk)
  have sz: "unat (size_fw w1) = unat (size_fw w) + n"
    using s0 s1 inb by (simp add: w1_def)
  have trm: "?h' (c_str w1 + unat (size_fw w1)) = 0"
    using s1 inb1 by (simp add: c_str_def)
  have bound: "unat (size_fw w1) \<le> unat SizeN - 1"
    using s1 inb1 by linarith
  have frame: "\<forall>a. a < buffer w \<or> buffer w + unat SizeN \<le> a \<longrightarrow> ?h' a = h a"
    using inb inb1 by (auto simp: h1_def w1_def)
  have buf: "buffer w1 = buffer w" by (simp add: w1_def)
  show ?thesis
    unfolding n_def [symmetric]
    apply (rule exI [of _ ?h'], rule exI [of _ w1])
    apply (intro conjI)
    apply (rule wr, rule buf, rule inb1(1), rule inb1(2), rule sz, rule content, rule trm,
        rule bound, rule frame)
    done
qed

theorem write_fw_appends_witness:
  "\<exists>h' w'. write_fw 4 hello_writer_heap hello_writer hello_view = Inr (h', w')
     \<and> unat (size_fw w') = 3
     \<and> chars_of h' (view w') = map of_char ''hel''
     \<and> h' (c_str w' + 3) = 0
     \<and> (\<forall>a. a < 10 \<or> 14 \<le> a \<longrightarrow> h' a = hello_writer_heap a)"
proof -
  have 1: "buffer hello_writer \<le> last_ptr hello_writer"
    by (simp add: hello_writer_simps)
  have 2: "last_ptr hello_writer < buffer hello_writer + unat (4 :: size_t)"
    by (simp add: hello_writer_simps)
  have 3: "\<not> ranges_overlap (last_ptr hello_writer) (data hello_view)
             (appended_count 4 hello_writer hello_view)"
    unfolding hello_count
    by (simp add: ranges_overlap_def hello_writer_simps data_def hello_view_def
        basic_string_view_n_def)
  have v: "chars_of hello_writer_heap (view hello_writer) = []"
    by (simp add: chars_of_def view_def basic_string_view_range_def begin_sv_def end_sv_def
        hello_writer_simps ptr_diff_def)
  from write_fw_appends [OF 1 2 3, of hello_writer_heap]
  obtain h' w' where wr: "write_fw 4 hello_writer_heap hello_writer hello_view = Inr (h', w')"
    and sz: "unat (size_fw w') = unat (size_fw hello_writer) + appended_count 4 hello_writer hello_view"
    and ch: "chars_of h' (view w') = chars_of hello_writer_heap (view hello_writer)
               @ take (appended_count 4 hello_writer hello_view) (chars_of hello_writer_heap hello_view)"
    and tm: "h' (c_str w' + unat (size_fw w')) = 0"
    and fr: "\<forall>a. a < buffer hello_writer \<or> buffer hello_writer + unat (4 :: size_t) \<le> a
               \<longrightarrow> h' a = hello_writer_heap a"
    by (elim exE conjE)
  have sz': "unat (size_fw w') = 3"
    using sz by (simp add: hello_count hello_writer_simps)
  have ch': "chars_of h' (view w') = map of_char ''hel''"
    using ch by (simp add: hello_count hello_chars v)
  have tm': "h' (c_str w' + 3) = 0"
    using tm by (simp only: sz')
  have fr': "\<forall>a. a < 10 \<or> 14 \<le> a \<longrightarrow> h' a = hello_writer_heap a"
    using fr by (simp add: hello_writer_simps)
  from wr sz' ch' tm' fr' show ?thesis
    by (intro exI conjI)
qed

text \<open>
  Claim C2. After \<^verbatim>\<open>clear()\<close> the character at position \<^verbatim>\<open>size()\<close> is not the
  terminator: a writer of capacity 4 that was fed \<open>hello\<close> and then cleared reports size
  zero and an empty view, while the buffer still starts with \<open>h\<close> and the string read at
  \<^verbatim>\<open>c_str()\<close> still has three characters.
\<close>

theorem clear_keeps_stale_text:
  "case write_fw 4 hello_writer_heap hello_writer hello_view of
     Inl e \<Rightarrow> False
   | Inr (h', w') \<Rightarrow>
       size_fw (clear w') = 0
       \<and> h' (c_str (clear w') + unat (size_fw (clear w'))) = of_char CHR ''h''
       \<and> h' (c_str (clear w') + unat (size_fw (clear w'))) \<noteq> 0
       \<and> chars_of h' (view (clear w')) = []
       \<and> basic_string_view_zstr h' (c_str (clear w'))
           = Some \<lparr>sv_begin = 10, sv_size = 3\<rparr>"
proof -
  define h' :: "8 word heap" where
    "h' = (\<lambda>a. if 10 \<le> a \<and> a < 13 then hello_writer_heap (100 + (a - 10))
               else hello_writer_heap a)(13 := 0)"
  define w' where "w' = hello_writer\<lparr>last_ptr := 13\<rparr>"
  have wr: "write_fw 4 hello_writer_heap hello_writer hello_view = Inr (h', w')"
    by (simp add: write_fw_def hello_writer_simps hello_view_def basic_string_view_n_def
        size_sv_def data_def memcpy_def ranges_overlap_def h'_def w'_def)
  have cl: "clear w' = hello_writer"
    by (simp add: w'_def clear_def hello_writer_def basic_fixed_writer_init_def)
  have src: "hello_writer_heap 100 = of_char CHR ''h''" "hello_writer_heap 101 = of_char CHR ''e''"
    "hello_writer_heap 102 = of_char CHR ''l''"
    by (simp_all add: hello_writer_heap_def basic_fixed_writer_init_def hello_heap_def)
  have h10: "h' 10 = of_char CHR ''h''" "h' 11 = of_char CHR ''e''" "h' 12 = of_char CHR ''l''"
    "h' 13 = 0"
    by (simp_all add: h'_def src)
  have z: "basic_string_view_zstr h' 10 = Some \<lparr>sv_begin = 10, sv_size = word_of_nat 3\<rparr>"
  proof (rule basic_string_view_zstr_terminated)
    show "h' (10 + 3) = 0" using h10 by simp
    show "\<forall>i<3. h' (10 + i) \<noteq> 0"
    proof (intro allI impI)
      fix i :: nat
      assume "i < 3"
      then have "i = 0 \<or> i = 1 \<or> i = 2" by arith
      then show "h' (10 + i) \<noteq> 0" using h10 by (elim disjE) simp_all
    qed
  qed
  have v: "chars_of h' (view hello_writer) = []"
    by (simp add: chars_of_def view_def basic_string_view_range_def begin_sv_def end_sv_def
        hello_writer_simps ptr_diff_def)
  show ?thesis
    using z v h10
    by (simp add: wr cl hello_writer_simps c_str_def)
qed

section \<open>The argument binder and the forwarding overloads\<close>

text \<open>
  Claim C9. For a call of \<^verbatim>\<open>format\<close> or \<^verbatim>\<open>printf\<close> with \<open>N\<close> arguments, the array of
  thunks and the array of argument addresses handed to the engine each have length
  \<open>N + 1\<close>, each ends in a null entry, their first \<open>N\<close> entries are the thunks and the
  addresses of the arguments in order, and the count handed over is \<open>N\<close>.
\<close>

theorem binder_arrays:
  "\<exists>count funcs values.
      format_fx engine writer fmt args = engine writer fmt count funcs values
    \<and> printf_fx engine' writer fmt args = engine' writer fmt count funcs values
    \<and> format_fx recording_impl writer fmt args = (writer, fmt, count, funcs, values)
    \<and> printf_fx recording_impl writer fmt args = (writer, fmt, count, funcs, values)
    \<and> length funcs = length args + 1
    \<and> length values = length args + 1
    \<and> last funcs = None \<and> funcs ! length args = None
    \<and> last values = nullptr \<and> values ! length args = nullptr
    \<and> count = word_of_nat (length args)
    \<and> (length args < 2 ^ 64 \<longrightarrow> unat count = length args)
    \<and> (\<forall>i<length args. funcs ! i = Some (snd (args ! i)) \<and> values ! i = fst (args ! i))"
proof -
  let ?count = "word_of_nat (length args) :: size_t"
  let ?funcs = "map (\<lambda>arg. Some (snd arg)) args @ [None]"
  let ?vals = "map fst args @ [nullptr]"
  have "format_fx engine writer fmt args = engine writer fmt ?count ?funcs ?vals"
    "printf_fx engine' writer fmt args = engine' writer fmt ?count ?funcs ?vals"
    "format_fx recording_impl writer fmt args = (writer, fmt, ?count, ?funcs, ?vals)"
    "printf_fx recording_impl writer fmt args = (writer, fmt, ?count, ?funcs, ?vals)"
    "length ?funcs = length args + 1"
    "length ?vals = length args + 1"
    "last ?funcs = None" "?funcs ! length args = None"
    "last ?vals = nullptr" "?vals ! length args = nullptr"
    "?count = word_of_nat (length args)"
    "length args < 2 ^ 64 \<longrightarrow> unat ?count = length args"
    "\<forall>i<length args. ?funcs ! i = Some (snd (args ! i)) \<and> ?vals ! i = fst (args ! i)"
    by (simp_all add: format_fx_def printf_fx_def recording_impl_def nth_append unat_of_nat)
  then show ?thesis by blast
qed

theorem binder_arrays_witness:
  "format_fx recording_impl ''sink'' ''{}{}'' two_args
     = (''sink'', ''{}{}'', 2, two_funcs, two_values)
   \<and> printf_fx recording_impl ''sink'' ''%d%d'' two_args
     = (''sink'', ''%d%d'', 2, two_funcs, two_values)
   \<and> length two_funcs = 3 \<and> length two_values = 3
   \<and> last two_funcs = None \<and> last two_values = nullptr
   \<and> length two_args < 2 ^ 64 \<and> unat (2 :: size_t) = length two_args
   \<and> (1::nat) < length two_args \<and> two_funcs ! 1 = Some (snd (two_args ! 1))
   \<and> two_values ! 1 = fst (two_args ! 1)"
proof -
  have l: "length two_args = 2" by (simp add: two_args_def)
  have f: "format_fx recording_impl ''sink'' ''{}{}'' two_args
     = (''sink'', ''{}{}'', 2, two_funcs, two_values)"
    by (simp add: format_fx_def recording_impl_def two_args_def two_funcs_def two_values_def)
  have p: "printf_fx recording_impl ''sink'' ''%d%d'' two_args
     = (''sink'', ''%d%d'', 2, two_funcs, two_values)"
    by (simp add: printf_fx_def recording_impl_def two_args_def two_funcs_def two_values_def)
  have h1: "length two_args < 2 ^ 64" by (simp add: l)
  have h2: "(1::nat) < length two_args" by (simp add: l)
  from binder_arrays [of recording_impl "''sink''" "''{}{}''" two_args recording_impl]
  obtain count funcs "values" where
    r: "format_fx recording_impl ''sink'' ''{}{}'' two_args = (''sink'', ''{}{}'', count, funcs, values)"
    and lf: "length funcs = length two_args + 1" and lv: "length values = length two_args + 1"
    and sf: "last funcs = None" and sv: "last values = nullptr"
    and u: "length two_args < 2 ^ 64 \<longrightarrow> unat count = length two_args"
    and el: "\<forall>i<length two_args. funcs ! i = Some (snd (two_args ! i)) \<and> values ! i = fst (two_args ! i)"
    by (elim exE conjE)
  from r f have eq: "count = 2" "funcs = two_funcs" "values = two_values" by simp_all
  from lf lv sf sv have c1: "length two_funcs = 3 \<and> length two_values = 3
      \<and> last two_funcs = None \<and> last two_values = nullptr"
    by (simp add: eq l)
  from u h1 have c2: "unat (2 :: size_t) = length two_args" by (simp only: eq)
  from el h2 have c3: "two_funcs ! 1 = Some (snd (two_args ! 1)) \<and> two_values ! 1 = fst (two_args ! 1)"
    unfolding eq by blast
  from f p c1 h1 c2 h2 c3 show ?thesis by (intro conjI) simp_all
qed

text \<open>
  Claim C6. Formatting a value of an enumeration type is formatting its conversion to the
  underlying integer type with the same writer and spec; the same holds for the thunks of
  the two types.
\<close>

theorem format_value_enum_forwards:
  "format_value_enum format_value underlying_type_t writer v spec
     = format_value writer (underlying_type_t v) spec
   \<and> format_value_thunk (format_value_enum format_value underlying_type_t) load writer ptr spec
     = format_value_thunk format_value (\<lambda>p. underlying_type_t (load p)) writer ptr spec"
  by (simp add: format_value_enum_def format_value_thunk_def)


section \<open>The engines\<close>

lemma invoke_cases:
  assumes "invoke count funcs values i spec st = (r, st')"
  shows "(r = None \<and> i < count \<and> counter st' = counter st \<and> invoked st' = invoked st @ [i]
            \<and> (\<exists>f. funcs ! i = Some f \<and> out st' = f (out st) (values ! i) spec))
         \<or> (r \<noteq> None \<and> st' = st)"
  using assms
  by (auto simp: invoke_def read_array_def split: if_splits option.splits)

lemma invoke_in_bounds:
  assumes "count < length funcs" and "count < length values"
  shows "fst (invoke count funcs values i spec st) \<noteq> Some Out_of_bounds_read"
  using assms
  by (auto simp: invoke_def read_array_def split: if_splits option.splits)

lemma invoke_beyond_count:
  "count \<le> i \<Longrightarrow> invoke count funcs values i spec st = (Some Template_fault, st)"
  by (simp add: invoke_def)

lemma close_placeholder_cases:
  assumes "close_placeholder count funcs values ds spec st = (r, st')"
  shows "(r = None \<and> ds = [] \<and> counter st < count \<and> counter st' = counter st + 1
            \<and> invoked st' = invoked st @ [counter st])
       \<or> (r = None \<and> ds \<noteq> [] \<and> decimal ds < count \<and> counter st' = counter st
            \<and> invoked st' = invoked st @ [decimal ds])
       \<or> (r \<noteq> None \<and> st' = st)"
proof (cases "ds = []")
  case True
  obtain r0 st0 where i: "invoke count funcs values (counter st) spec st = (r0, st0)"
    by (cases "invoke count funcs values (counter st) spec st")
  from invoke_cases [OF i] assms True i show ?thesis
    by (auto simp: close_placeholder_def split: option.splits)
next
  case False
  with assms have i: "invoke count funcs values (decimal ds) spec st = (r, st')"
    by (simp add: close_placeholder_def)
  from invoke_cases [OF i] False show ?thesis by auto
qed

lemma close_placeholder_in_bounds:
  assumes "count < length funcs" and "count < length values"
  shows "fst (close_placeholder count funcs values ds spec st) \<noteq> Some Out_of_bounds_read"
proof (cases "ds = []")
  case True
  from invoke_in_bounds [OF assms, of "counter st" spec st] True show ?thesis
    by (auto simp: close_placeholder_def split: option.splits prod.splits)
next
  case False
  with invoke_in_bounds [OF assms, of "decimal ds" spec st] show ?thesis
    by (simp add: close_placeholder_def)
qed

lemma format_scan_safe:
  assumes "count < length funcs" and "count < length values"
  shows "fst (format_scan count funcs values m cs st) \<noteq> Some Out_of_bounds_read
       \<and> set (invoked (snd (format_scan count funcs values m cs st)))
           \<subseteq> set (invoked st) \<union> {..<count}"
  using assms
proof (induction count funcs "values" m cs st rule: format_scan.induct)
  case (1 count funcs "values" st)
  then show ?case by simp
next
  case (2 count funcs "values" c cs st)
  then show ?case
    by (auto simp: emit_def split: list.splits)
next
  case (3 count funcs "values" ds sp st)
  then show ?case by simp
next
  case (4 count funcs "values" ds c cs st)
  obtain r st' where cp: "close_placeholder count funcs values ds [] st = (r, st')"
    by (cases "close_placeholder count funcs values ds [] st")
  from close_placeholder_in_bounds [OF "4.prems", of ds "[]" st] cp
  have nb: "r \<noteq> Some Out_of_bounds_read" by simp
  from close_placeholder_cases [OF cp]
  have inv: "set (invoked st') \<subseteq> set (invoked st) \<union> {..<count}" by auto
  show ?case
  proof (cases "c = CHR ''}''")
    case True
    show ?thesis
    proof (cases r)
      case None
      with "4.IH"(1) [OF True cp [symmetric]] "4.prems" True cp inv
      show ?thesis by (auto simp: None)
    next
      case (Some e)
      with True cp nb inv show ?thesis by simp
    qed
  next
    case False
    with "4.IH"(2,3) "4.prems" show ?thesis by auto
  qed
next
  case (5 count funcs "values" ds spec c cs st)
  obtain r st' where cp: "close_placeholder count funcs values ds spec st = (r, st')"
    by (cases "close_placeholder count funcs values ds spec st")
  from close_placeholder_in_bounds [OF "5.prems", of ds spec st] cp
  have nb: "r \<noteq> Some Out_of_bounds_read" by simp
  from close_placeholder_cases [OF cp]
  have inv: "set (invoked st') \<subseteq> set (invoked st) \<union> {..<count}" by auto
  show ?case
  proof (cases "c = CHR ''}''")
    case True
    show ?thesis
    proof (cases r)
      case None
      with "5.IH"(1) [OF True cp [symmetric]] "5.prems" True cp inv
      show ?thesis by (auto simp: None)
    next
      case (Some e)
      with True cp nb inv show ?thesis by simp
    qed
  next
    case False
    with "5.IH"(2) "5.prems" show ?thesis by auto
  qed
qed

lemmas engine_eval = format_impl_def printf_impl_def format_fx_def printf_fx_def engine_init_def
  emit_def close_placeholder_def invoke_def read_array_def decimal_def is_digit_def
  is_flag_def is_length_qualifier_def nullptr_def

lemma unat_count_le: "unat (word_of_nat n :: size_t) \<le> n"
  by (simp add: unat_of_nat)

lemma format_scan_plain_text:
  "CHR ''{'' \<notin> set xs \<Longrightarrow> CHR ''}'' \<notin> set xs
   \<Longrightarrow> format_scan count funcs values Literal (xs @ rest) st
       = format_scan count funcs values Literal rest (st\<lparr>out := out st @ xs\<rparr>)"
  by (induction xs arbitrary: st) (auto simp: emit_def)

lemma printf_scan_plain_text:
  "CHR ''%'' \<notin> set xs
   \<Longrightarrow> printf_scan count funcs values Text (xs @ rest) st
       = printf_scan count funcs values Text rest (st\<lparr>out := out st @ xs\<rparr>)"
  by (induction xs arbitrary: st) (auto simp: emit_def)

lemma format_escape_in_text:
  assumes "CHR ''{'' \<notin> set xs" "CHR ''}'' \<notin> set xs" "CHR ''{'' \<notin> set ys" "CHR ''}'' \<notin> set ys"
  shows "format_fx format_impl writer (xs @ ''{{'' @ ys) args
           = (None, \<lparr>out = writer @ xs @ ''{'' @ ys, counter = 0, invoked = []\<rparr>)"
    and "format_fx format_impl writer (xs @ ''}}'' @ ys) args
           = (None, \<lparr>out = writer @ xs @ ''}'' @ ys, counter = 0, invoked = []\<rparr>)"
  using format_scan_plain_text [OF assms(1,2)] format_scan_plain_text [OF assms(3,4), of _ _ _ "[]"]
  by (simp_all add: format_fx_def format_impl_def engine_init_def emit_def)

lemma printf_escape_in_text:
  assumes "CHR ''%'' \<notin> set xs" "CHR ''%'' \<notin> set ys"
  shows "printf_fx printf_impl writer (xs @ ''%%'' @ ys) args
           = (None, \<lparr>out = writer @ xs @ ''%'' @ ys, counter = 0, invoked = []\<rparr>)"
  using printf_scan_plain_text [OF assms(1)] printf_scan_plain_text [OF assms(2), of _ _ _ "[]"]
  by (simp add: printf_fx_def printf_impl_def engine_init_def emit_def)

text \<open>
  The scan of a whole placeholder from the literal state: the digits and the spec text
  are gathered, and the closing brace resolves the placeholder and returns to the literal
  state unless the resolution is a fault.
\<close>

lemma is_digit_not_delimiter: "is_digit c \<Longrightarrow> c \<noteq> CHR ''}'' \<and> c \<noteq> CHR '':'' \<and> c \<noteq> CHR ''{''"
  by (auto simp: is_digit_def)

lemma format_scan_index_digits:
  "\<forall>c \<in> set ds. is_digit c
   \<Longrightarrow> format_scan count funcs values (Placeholder acc None) (ds @ rest) st
       = format_scan count funcs values (Placeholder (acc @ ds) None) rest st"
proof (induction ds arbitrary: acc)
  case Nil
  then show ?case by simp
next
  case (Cons d ds)
  then have d: "is_digit d" and ds: "\<forall>c \<in> set ds. is_digit c" by simp_all
  from is_digit_not_delimiter [OF d] d Cons.IH [OF ds, of "acc @ [d]"]
  show ?case by simp
qed

lemma format_scan_spec_text:
  "CHR ''}'' \<notin> set sp
   \<Longrightarrow> format_scan count funcs values (Placeholder ds (Some acc)) (sp @ rest) st
       = format_scan count funcs values (Placeholder ds (Some (acc @ sp))) rest st"
proof (induction sp arbitrary: acc)
  case Nil
  then show ?case by simp
next
  case (Cons c sp)
  then have c: "c \<noteq> CHR ''}''" and sp: "CHR ''}'' \<notin> set sp" by auto
  from c Cons.IH [OF sp, of "acc @ [c]"] show ?case by simp
qed

lemma format_scan_enter_placeholder:
  assumes "\<forall>c \<in> set ds. is_digit c" and "t = CHR ''}'' \<or> t = CHR '':''"
  shows "format_scan count funcs values Literal (CHR ''{'' # ds @ t # rest) st
       = format_scan count funcs values (Placeholder ds None) (t # rest) st"
proof (cases ds)
  case Nil
  with assms(2) show ?thesis by auto
next
  case (Cons d ds')
  with assms(1) have "is_digit d" by simp
  from is_digit_not_delimiter [OF this] have nb: "d \<noteq> CHR ''{''" by simp
  have "format_scan count funcs values Literal (CHR ''{'' # ds @ t # rest) st
        = format_scan count funcs values (Placeholder [] None) (ds @ t # rest) st"
    using nb Cons by simp
  also have "\<dots> = format_scan count funcs values (Placeholder ([] @ ds) None) (t # rest) st"
    using assms(1) by (rule format_scan_index_digits)
  finally show ?thesis by simp
qed

lemma format_scan_placeholder:
  assumes "\<forall>c \<in> set ds. is_digit c"
  shows "format_scan count funcs values Literal (CHR ''{'' # ds @ CHR ''}'' # cs) st
       = (case close_placeholder count funcs values ds [] st of
            (None, st') \<Rightarrow> format_scan count funcs values Literal cs st'
          | (Some e, st') \<Rightarrow> (Some e, st'))"
  using format_scan_enter_placeholder [OF assms, of "CHR ''}''" count funcs "values" cs st]
  by simp

lemma format_scan_placeholder_spec:
  assumes "\<forall>c \<in> set ds. is_digit c" and "CHR ''}'' \<notin> set sp"
  shows "format_scan count funcs values Literal (CHR ''{'' # ds @ CHR '':'' # sp @ CHR ''}'' # cs) st
       = (case close_placeholder count funcs values ds sp st of
            (None, st') \<Rightarrow> format_scan count funcs values Literal cs st'
          | (Some e, st') \<Rightarrow> (Some e, st'))"
proof -
  have "format_scan count funcs values Literal (CHR ''{'' # ds @ CHR '':'' # sp @ CHR ''}'' # cs) st
      = format_scan count funcs values (Placeholder ds None) (CHR '':'' # sp @ CHR ''}'' # cs) st"
    using assms(1) by (intro format_scan_enter_placeholder) simp_all
  also have "\<dots> = format_scan count funcs values (Placeholder ds (Some [])) (sp @ CHR ''}'' # cs) st"
    by simp
  also have "\<dots> = format_scan count funcs values (Placeholder ds (Some ([] @ sp))) (CHR ''}'' # cs) st"
    using assms(2) by (rule format_scan_spec_text)
  finally show ?thesis by simp
qed

text \<open>
  Claim C5. In the literal state of the brace-style scan the doubled sequences \<open>{{\<close> and
  \<open>}}\<close> each append exactly one brace to the sink and leave the scan in the literal
  state, with the counter and the record of invoked thunks unchanged; in the text state
  of the printf-style scan the doubled sequence \<open>%%\<close> appends exactly one \<open>%\<close> and
  starts no conversion specifier. So a template that is plain text around one doubled
  sequence produces that text with a single brace or percent sign, invokes no thunk and
  raises no fault, whatever the arguments are.
\<close>

theorem doubled_escapes:
  "format_scan count funcs values Literal (CHR ''{'' # CHR ''{'' # cs) st
     = format_scan count funcs values Literal cs (st\<lparr>out := out st @ ''{''\<rparr>)
   \<and> format_scan count funcs values Literal (CHR ''}'' # CHR ''}'' # cs) st
     = format_scan count funcs values Literal cs (st\<lparr>out := out st @ ''}''\<rparr>)
   \<and> printf_scan count funcs values Text (CHR ''%'' # CHR ''%'' # cs) st
     = printf_scan count funcs values Text cs (st\<lparr>out := out st @ ''%''\<rparr>)
   \<and> format_fx format_impl writer ''{{'' args
     = (None, \<lparr>out = writer @ ''{'', counter = 0, invoked = []\<rparr>)
   \<and> format_fx format_impl writer ''}}'' args
     = (None, \<lparr>out = writer @ ''}'', counter = 0, invoked = []\<rparr>)
   \<and> printf_fx printf_impl writer ''%%'' args
     = (None, \<lparr>out = writer @ ''%'', counter = 0, invoked = []\<rparr>)
   \<and> (CHR ''{'' \<notin> set xs \<and> CHR ''}'' \<notin> set xs \<and> CHR ''{'' \<notin> set ys \<and> CHR ''}'' \<notin> set ys \<longrightarrow>
        format_fx format_impl writer (xs @ ''{{'' @ ys) args
          = (None, \<lparr>out = writer @ xs @ ''{'' @ ys, counter = 0, invoked = []\<rparr>)
        \<and> format_fx format_impl writer (xs @ ''}}'' @ ys) args
          = (None, \<lparr>out = writer @ xs @ ''}'' @ ys, counter = 0, invoked = []\<rparr>))
   \<and> (CHR ''%'' \<notin> set xs \<and> CHR ''%'' \<notin> set ys \<longrightarrow>
        printf_fx printf_impl writer (xs @ ''%%'' @ ys) args
          = (None, \<lparr>out = writer @ xs @ ''%'' @ ys, counter = 0, invoked = []\<rparr>))"
proof -
  have 1: "format_scan count funcs values Literal (CHR ''{'' # CHR ''{'' # cs) st
     = format_scan count funcs values Literal cs (st\<lparr>out := out st @ ''{''\<rparr>)"
    by (simp add: emit_def)
  have 2: "format_scan count funcs values Literal (CHR ''}'' # CHR ''}'' # cs) st
     = format_scan count funcs values Literal cs (st\<lparr>out := out st @ ''}''\<rparr>)"
    by (simp add: emit_def)
  have 3: "printf_scan count funcs values Text (CHR ''%'' # CHR ''%'' # cs) st
     = printf_scan count funcs values Text cs (st\<lparr>out := out st @ ''%''\<rparr>)"
    by (simp add: emit_def)
  have 4: "format_fx format_impl writer ''{{'' args
     = (None, \<lparr>out = writer @ ''{'', counter = 0, invoked = []\<rparr>)"
    by (simp add: engine_eval)
  have 5: "format_fx format_impl writer ''}}'' args
     = (None, \<lparr>out = writer @ ''}'', counter = 0, invoked = []\<rparr>)"
    by (simp add: engine_eval)
  have 6: "printf_fx printf_impl writer ''%%'' args
     = (None, \<lparr>out = writer @ ''%'', counter = 0, invoked = []\<rparr>)"
    by (simp add: engine_eval)
  have 7: "CHR ''{'' \<notin> set xs \<and> CHR ''}'' \<notin> set xs \<and> CHR ''{'' \<notin> set ys \<and> CHR ''}'' \<notin> set ys \<longrightarrow>
        format_fx format_impl writer (xs @ ''{{'' @ ys) args
          = (None, \<lparr>out = writer @ xs @ ''{'' @ ys, counter = 0, invoked = []\<rparr>)
        \<and> format_fx format_impl writer (xs @ ''}}'' @ ys) args
          = (None, \<lparr>out = writer @ xs @ ''}'' @ ys, counter = 0, invoked = []\<rparr>)"
    using format_escape_in_text [of xs ys writer args] by blast
  have 8: "CHR ''%'' \<notin> set xs \<and> CHR ''%'' \<notin> set ys \<longrightarrow>
        printf_fx printf_impl writer (xs @ ''%%'' @ ys) args
          = (None, \<lparr>out = writer @ xs @ ''%'' @ ys, counter = 0, invoked = []\<rparr>)"
    using printf_escape_in_text [of xs ys writer args] by blast
  from 1 2 3 4 5 6 7 8 show ?thesis by (intro conjI)
qed

theorem doubled_escapes_witness:
  "CHR ''{'' \<notin> set ''a '' \<and> CHR ''}'' \<notin> set ''a '' \<and> CHR ''{'' \<notin> set '' b'' \<and> CHR ''}'' \<notin> set '' b''
   \<and> CHR ''%'' \<notin> set ''a '' \<and> CHR ''%'' \<notin> set '' b''
   \<and> format_fx format_impl [] ''a {{ b'' two_args
       = (None, \<lparr>out = ''a { b'', counter = 0, invoked = []\<rparr>)
   \<and> format_fx format_impl [] ''a }} b'' two_args
       = (None, \<lparr>out = ''a } b'', counter = 0, invoked = []\<rparr>)
   \<and> printf_fx printf_impl [] ''a %% b'' two_args
       = (None, \<lparr>out = ''a % b'', counter = 0, invoked = []\<rparr>)"
proof -
  have h1: "CHR ''{'' \<notin> set ''a '' \<and> CHR ''}'' \<notin> set ''a '' \<and> CHR ''{'' \<notin> set '' b'' \<and> CHR ''}'' \<notin> set '' b''"
    by simp
  have h2: "CHR ''%'' \<notin> set ''a '' \<and> CHR ''%'' \<notin> set '' b''"
    by simp
  note inst = doubled_escapes [of 2 two_funcs two_values "[]" exhausted_state "[]" two_args
      "''a ''" "'' b''"]
  from inst h1 have "format_fx format_impl [] (''a '' @ ''{{'' @ '' b'') two_args
          = (None, \<lparr>out = [] @ ''a '' @ ''{'' @ '' b'', counter = 0, invoked = []\<rparr>)
        \<and> format_fx format_impl [] (''a '' @ ''}}'' @ '' b'') two_args
          = (None, \<lparr>out = [] @ ''a '' @ ''}'' @ '' b'', counter = 0, invoked = []\<rparr>)"
    by blast
  then have c1: "format_fx format_impl [] ''a {{ b'' two_args
       = (None, \<lparr>out = ''a { b'', counter = 0, invoked = []\<rparr>)
   \<and> format_fx format_impl [] ''a }} b'' two_args
       = (None, \<lparr>out = ''a } b'', counter = 0, invoked = []\<rparr>)"
    by simp
  from inst h2 have "printf_fx printf_impl [] (''a '' @ ''%%'' @ '' b'') two_args
          = (None, \<lparr>out = [] @ ''a '' @ ''%'' @ '' b'', counter = 0, invoked = []\<rparr>)"
    by blast
  then have c2: "printf_fx printf_impl [] ''a %% b'' two_args
       = (None, \<lparr>out = ''a % b'', counter = 0, invoked = []\<rparr>)"
    by simp
  from h1 h2 c1 c2 show ?thesis by simp
qed

text \<open>
  Claim C3. The counter of the brace-style scan starts at zero. A placeholder without an
  index that is resolved uses the counter as its index and leaves the counter one higher;
  a placeholder with an index is resolved at the decimal value of its digits and leaves
  the counter as it was. So the template \<open>{} {1} {}\<close> with two arguments invokes the thunks
  at positions 0, 1 and 1, in that order, with a space written after the first and after
  the second. In the scan itself, every placeholder met in the literal state, with or
  without digits and with or without a spec, is resolved by exactly that rule, and the
  scan goes on in the literal state with the resulting counter.
\<close>

theorem auto_increment:
  "counter (engine_init writer) = 0
   \<and> (close_placeholder count funcs values [] spec st = (None, st') \<longrightarrow>
        counter st' = counter st + 1 \<and> invoked st' = invoked st @ [counter st])
   \<and> (ds \<noteq> [] \<longrightarrow>
        close_placeholder count funcs values ds spec st = invoke count funcs values (decimal ds) spec st
        \<and> counter (snd (close_placeholder count funcs values ds spec st)) = counter st)
   \<and> format_fx format_impl writer ''{} {1} {}'' [(a, fA), (b, fB)]
       = (None, \<lparr>out = fB (fB (fA writer a [] @ '' '') b [] @ '' '') b [],
                 counter = 2, invoked = [0, 1, 1]\<rparr>)
   \<and> ((\<forall>c \<in> set ds. is_digit c) \<and> CHR ''}'' \<notin> set sp \<longrightarrow>
        format_scan count funcs values Literal (CHR ''{'' # ds @ CHR ''}'' # cs) st
          = (case close_placeholder count funcs values ds [] st of
               (None, s) \<Rightarrow> format_scan count funcs values Literal cs s
             | (Some e, s) \<Rightarrow> (Some e, s))
        \<and> format_scan count funcs values Literal (CHR ''{'' # ds @ CHR '':'' # sp @ CHR ''}'' # cs) st
          = (case close_placeholder count funcs values ds sp st of
               (None, s) \<Rightarrow> format_scan count funcs values Literal cs s
             | (Some e, s) \<Rightarrow> (Some e, s)))"
proof -
  have 5: "(\<forall>c \<in> set ds. is_digit c) \<and> CHR ''}'' \<notin> set sp \<longrightarrow>
        format_scan count funcs values Literal (CHR ''{'' # ds @ CHR ''}'' # cs) st
          = (case close_placeholder count funcs values ds [] st of
               (None, s) \<Rightarrow> format_scan count funcs values Literal cs s
             | (Some e, s) \<Rightarrow> (Some e, s))
        \<and> format_scan count funcs values Literal (CHR ''{'' # ds @ CHR '':'' # sp @ CHR ''}'' # cs) st
          = (case close_placeholder count funcs values ds sp st of
               (None, s) \<Rightarrow> format_scan count funcs values Literal cs s
             | (Some e, s) \<Rightarrow> (Some e, s))"
    using format_scan_placeholder [of ds count funcs "values" cs st]
      format_scan_placeholder_spec [of ds sp count funcs "values" cs st]
    by blast
  have 1: "counter (engine_init writer) = 0" by (simp add: engine_init_def)
  have 2: "close_placeholder count funcs values [] spec st = (None, st') \<longrightarrow>
        counter st' = counter st + 1 \<and> invoked st' = invoked st @ [counter st]"
    using close_placeholder_cases [of count funcs "values" "[]" spec st None st'] by auto
  have 3: "ds \<noteq> [] \<longrightarrow>
        close_placeholder count funcs values ds spec st = invoke count funcs values (decimal ds) spec st
        \<and> counter (snd (close_placeholder count funcs values ds spec st)) = counter st"
  proof
    assume ne: "ds \<noteq> []"
    obtain r st1 where cp: "close_placeholder count funcs values ds spec st = (r, st1)"
      by (cases "close_placeholder count funcs values ds spec st")
    from close_placeholder_cases [OF cp] ne have "counter st1 = counter st" by auto
    with ne cp show "close_placeholder count funcs values ds spec st = invoke count funcs values (decimal ds) spec st
        \<and> counter (snd (close_placeholder count funcs values ds spec st)) = counter st"
      by (simp add: close_placeholder_def)
  qed
  have 4: "format_fx format_impl writer ''{} {1} {}'' [(a, fA), (b, fB)]
       = (None, \<lparr>out = fB (fB (fA writer a [] @ '' '') b [] @ '' '') b [],
                 counter = 2, invoked = [0, 1, 1]\<rparr>)"
    by (simp add: engine_eval)
  from 1 2 3 4 5 show ?thesis by (intro conjI)
qed

theorem auto_increment_witness:
  "close_placeholder 2 two_funcs two_values [] [] (engine_init [])
     = (None, \<lparr>out = ''A'', counter = 1, invoked = [0]\<rparr>)
   \<and> counter \<lparr>out = ''A'', counter = 1, invoked = [0]\<rparr> = counter (engine_init []) + 1
   \<and> ''1'' \<noteq> []
   \<and> counter (snd (close_placeholder 2 two_funcs two_values ''1'' [] (engine_init []))) = 0
   \<and> format_fx format_impl [] ''{} {1} {}'' two_args
       = (None, \<lparr>out = ''A B B'', counter = 2, invoked = [0, 1, 1]\<rparr>)
   \<and> is_digit CHR ''1'' \<and> CHR ''}'' \<notin> set ''x''
   \<and> format_scan 2 two_funcs two_values Literal ''{1}{}'' (engine_init [])
       = (None, \<lparr>out = ''BA'', counter = 1, invoked = [1, 0]\<rparr>)
   \<and> format_scan 2 two_funcs two_values Literal ''{1:x}{}'' (engine_init [])
       = (None, \<lparr>out = ''BA'', counter = 1, invoked = [1, 0]\<rparr>)"
proof -
  note inst = auto_increment [of "[]" 2 two_funcs two_values "[]" "engine_init []"
      "\<lparr>out = ''A'', counter = 1, invoked = [0]\<rparr>" "''1''"
      200 "letter_thunk CHR ''A''" 201 "letter_thunk CHR ''B''" "''x''" "''{}''"]
  have h1: "close_placeholder 2 two_funcs two_values [] [] (engine_init [])
     = (None, \<lparr>out = ''A'', counter = 1, invoked = [0]\<rparr>)"
    by (simp add: engine_eval two_funcs_def two_values_def letter_thunk_def)
  have h2: "''1'' \<noteq> []" by simp
  from inst h1 have c1: "counter \<lparr>out = ''A'', counter = 1, invoked = [0]\<rparr> = counter (engine_init []) + 1"
    by blast
  from inst h2
  have "counter (snd (close_placeholder 2 two_funcs two_values ''1'' [] (engine_init [])))
          = counter (engine_init [])" by blast
  then have c2: "counter (snd (close_placeholder 2 two_funcs two_values ''1'' [] (engine_init []))) = 0"
    by (simp add: engine_init_def)
  from inst have "format_fx format_impl [] ''{} {1} {}'' two_args
       = (None, \<lparr>out = letter_thunk CHR ''B'' (letter_thunk CHR ''B''
                          (letter_thunk CHR ''A'' [] 200 [] @ '' '') 201 [] @ '' '') 201 [],
                 counter = 2, invoked = [0, 1, 1]\<rparr>)"
    unfolding two_args_def by blast
  then have c3: "format_fx format_impl [] ''{} {1} {}'' two_args
       = (None, \<lparr>out = ''A B B'', counter = 2, invoked = [0, 1, 1]\<rparr>)"
    by (simp add: letter_thunk_def)
  have h3: "(\<forall>c \<in> set ''1''. is_digit c) \<and> CHR ''}'' \<notin> set ''x''"
    by (simp add: is_digit_def)
  have cl: "close_placeholder 2 two_funcs two_values ''1'' sp (engine_init [])
      = (None, \<lparr>out = ''B'', counter = 0, invoked = [1]\<rparr>)" for sp
    by (simp add: engine_eval two_funcs_def two_values_def letter_thunk_def)
  have rest: "format_scan 2 two_funcs two_values Literal ''{}'' \<lparr>out = ''B'', counter = 0, invoked = [1]\<rparr>
      = (None, \<lparr>out = ''BA'', counter = 1, invoked = [1, 0]\<rparr>)"
    by (simp add: engine_eval two_funcs_def two_values_def letter_thunk_def)
  from inst h3
  have "format_scan 2 two_funcs two_values Literal (CHR ''{'' # ''1'' @ CHR ''}'' # ''{}'') (engine_init [])
          = (case close_placeholder 2 two_funcs two_values ''1'' [] (engine_init []) of
               (None, s) \<Rightarrow> format_scan 2 two_funcs two_values Literal ''{}'' s
             | (Some e, s) \<Rightarrow> (Some e, s))"
    and "format_scan 2 two_funcs two_values Literal (CHR ''{'' # ''1'' @ CHR '':'' # ''x'' @ CHR ''}'' # ''{}'') (engine_init [])
          = (case close_placeholder 2 two_funcs two_values ''1'' ''x'' (engine_init []) of
               (None, s) \<Rightarrow> format_scan 2 two_funcs two_values Literal ''{}'' s
             | (Some e, s) \<Rightarrow> (Some e, s))"
    by blast+
  then have c4: "format_scan 2 two_funcs two_values Literal ''{1}{}'' (engine_init [])
       = (None, \<lparr>out = ''BA'', counter = 1, invoked = [1, 0]\<rparr>)"
    and c5: "format_scan 2 two_funcs two_values Literal ''{1:x}{}'' (engine_init [])
       = (None, \<lparr>out = ''BA'', counter = 1, invoked = [1, 0]\<rparr>)"
    by (simp_all only: cl rest prod.case option.case append_Cons append_Nil)
  from h3 have h3': "is_digit CHR ''1'' \<and> CHR ''}'' \<notin> set ''x''" by simp
  from h1 c1 h2 c2 c3 h3' c4 c5 show ?thesis by (intro conjI) simp_all
qed

text \<open>
  Claim C4. A placeholder whose index, explicit or taken from the counter, is at or beyond
  the argument count is a template fault that leaves the scan state as it was: no thunk
  is invoked for it. With argument arrays longer than the count, as the binder builds
  them, no scan reads an array at or beyond its length, and every thunk a call of
  \<^verbatim>\<open>format\<close> invokes is at a position below the number of arguments. So \<open>{5}\<close> with two
  arguments is a template fault with nothing written and no thunk invoked. In the scan
  itself, a placeholder met in the literal state whose index is at or beyond the count
  stops the scan with a template fault and the state it had, whatever follows it.
\<close>

theorem out_of_range_index_is_fault:
  "(count \<le> i \<longrightarrow> invoke count funcs values i spec st = (Some Template_fault, st))
   \<and> (ds \<noteq> [] \<and> count \<le> decimal ds \<longrightarrow>
        close_placeholder count funcs values ds spec st = (Some Template_fault, st))
   \<and> (count \<le> counter st \<longrightarrow>
        close_placeholder count funcs values [] spec st = (Some Template_fault, st))
   \<and> (count < length funcs \<and> count < length values \<longrightarrow>
        fst (format_scan count funcs values m cs st) \<noteq> Some Out_of_bounds_read
        \<and> set (invoked (snd (format_scan count funcs values m cs st)))
            \<subseteq> set (invoked st) \<union> {..<count})
   \<and> fst (format_fx format_impl writer fmt args) \<noteq> Some Out_of_bounds_read
   \<and> (\<forall>k \<in> set (invoked (snd (format_fx format_impl writer fmt args))). k < length args)
   \<and> format_fx format_impl writer ''{5}'' [(a, fA), (b, fB)]
       = (Some Template_fault, \<lparr>out = writer, counter = 0, invoked = []\<rparr>)
   \<and> ((\<forall>c \<in> set ds. is_digit c) \<and> ds \<noteq> [] \<and> count \<le> decimal ds \<and> CHR ''}'' \<notin> set sp \<longrightarrow>
        format_scan count funcs values Literal (CHR ''{'' # ds @ CHR ''}'' # cs) st
          = (Some Template_fault, st)
        \<and> format_scan count funcs values Literal (CHR ''{'' # ds @ CHR '':'' # sp @ CHR ''}'' # cs) st
          = (Some Template_fault, st))
   \<and> (count \<le> counter st \<and> CHR ''}'' \<notin> set sp \<longrightarrow>
        format_scan count funcs values Literal (CHR ''{'' # CHR ''}'' # cs) st
          = (Some Template_fault, st)
        \<and> format_scan count funcs values Literal (CHR ''{'' # CHR '':'' # sp @ CHR ''}'' # cs) st
          = (Some Template_fault, st))"
proof -
  have 8: "(\<forall>c \<in> set ds. is_digit c) \<and> ds \<noteq> [] \<and> count \<le> decimal ds \<and> CHR ''}'' \<notin> set sp \<longrightarrow>
        format_scan count funcs values Literal (CHR ''{'' # ds @ CHR ''}'' # cs) st
          = (Some Template_fault, st)
        \<and> format_scan count funcs values Literal (CHR ''{'' # ds @ CHR '':'' # sp @ CHR ''}'' # cs) st
          = (Some Template_fault, st)"
  proof (intro impI, elim conjE)
    assume dg: "\<forall>c \<in> set ds. is_digit c" and ne: "ds \<noteq> []" and big: "count \<le> decimal ds"
      and sp: "CHR ''}'' \<notin> set sp"
    have cl: "close_placeholder count funcs values ds t st = (Some Template_fault, st)" for t
      using ne big by (simp add: close_placeholder_def invoke_beyond_count)
    show "format_scan count funcs values Literal (CHR ''{'' # ds @ CHR ''}'' # cs) st
          = (Some Template_fault, st)
        \<and> format_scan count funcs values Literal (CHR ''{'' # ds @ CHR '':'' # sp @ CHR ''}'' # cs) st
          = (Some Template_fault, st)"
      by (simp only: format_scan_placeholder [OF dg] format_scan_placeholder_spec [OF dg sp] cl
          prod.case option.case simp_thms)
  qed
  have 9: "count \<le> counter st \<and> CHR ''}'' \<notin> set sp \<longrightarrow>
        format_scan count funcs values Literal (CHR ''{'' # CHR ''}'' # cs) st
          = (Some Template_fault, st)
        \<and> format_scan count funcs values Literal (CHR ''{'' # CHR '':'' # sp @ CHR ''}'' # cs) st
          = (Some Template_fault, st)"
  proof (intro impI, elim conjE)
    assume big: "count \<le> counter st" and sp: "CHR ''}'' \<notin> set sp"
    have dg: "\<forall>c \<in> set ([] :: string). is_digit c" by simp
    have cl: "close_placeholder count funcs values [] t st = (Some Template_fault, st)" for t
      using big by (simp add: close_placeholder_def invoke_beyond_count)
    have "format_scan count funcs values Literal (CHR ''{'' # [] @ CHR ''}'' # cs) st
          = (Some Template_fault, st)
        \<and> format_scan count funcs values Literal (CHR ''{'' # [] @ CHR '':'' # sp @ CHR ''}'' # cs) st
          = (Some Template_fault, st)"
      by (simp only: format_scan_placeholder [OF dg] format_scan_placeholder_spec [OF dg sp] cl
          prod.case option.case simp_thms)
    then show "format_scan count funcs values Literal (CHR ''{'' # CHR ''}'' # cs) st
          = (Some Template_fault, st)
        \<and> format_scan count funcs values Literal (CHR ''{'' # CHR '':'' # sp @ CHR ''}'' # cs) st
          = (Some Template_fault, st)"
      by (simp only: append_Nil)
  qed
  have 1: "count \<le> i \<longrightarrow> invoke count funcs values i spec st = (Some Template_fault, st)"
    by (simp add: invoke_beyond_count)
  have 2: "ds \<noteq> [] \<and> count \<le> decimal ds \<longrightarrow>
        close_placeholder count funcs values ds spec st = (Some Template_fault, st)"
    by (simp add: close_placeholder_def invoke_beyond_count)
  have 3: "count \<le> counter st \<longrightarrow>
        close_placeholder count funcs values [] spec st = (Some Template_fault, st)"
    by (simp add: close_placeholder_def invoke_beyond_count)
  have 4: "count < length funcs \<and> count < length values \<longrightarrow>
        fst (format_scan count funcs values m cs st) \<noteq> Some Out_of_bounds_read
        \<and> set (invoked (snd (format_scan count funcs values m cs st)))
            \<subseteq> set (invoked st) \<union> {..<count}"
    using format_scan_safe [of count funcs "values" m cs st] by blast
  let ?n = "unat (word_of_nat (length args) :: size_t)"
  let ?funcs = "map (\<lambda>arg. Some (snd arg)) args @ [None]"
  let ?vals = "map fst args @ [nullptr]"
  have n: "?n \<le> length args" by (rule unat_count_le)
  have call: "format_fx format_impl writer fmt args
      = format_scan ?n ?funcs ?vals Literal fmt (engine_init writer)"
    by (simp add: format_fx_def format_impl_def)
  have safe: "fst (format_scan ?n ?funcs ?vals Literal fmt (engine_init writer)) \<noteq> Some Out_of_bounds_read
       \<and> set (invoked (snd (format_scan ?n ?funcs ?vals Literal fmt (engine_init writer))))
           \<subseteq> set (invoked (engine_init writer)) \<union> {..<?n}"
    using n by (intro format_scan_safe) simp_all
  have 5: "fst (format_fx format_impl writer fmt args) \<noteq> Some Out_of_bounds_read"
    unfolding call using safe by (rule conjunct1)
  have 6: "\<forall>k \<in> set (invoked (snd (format_fx format_impl writer fmt args))). k < length args"
  proof
    fix k
    assume "k \<in> set (invoked (snd (format_fx format_impl writer fmt args)))"
    with safe have "k \<in> set (invoked (engine_init writer)) \<union> {..<?n}"
      unfolding call by blast
    then have "k < ?n" by (simp add: engine_init_def)
    with n show "k < length args" by simp
  qed
  have 7: "format_fx format_impl writer ''{5}'' [(a, fA), (b, fB)]
       = (Some Template_fault, \<lparr>out = writer, counter = 0, invoked = []\<rparr>)"
    by (simp add: engine_eval)
  from 1 2 3 4 5 6 7 8 9 show ?thesis by (intro conjI)
qed

theorem out_of_range_index_is_fault_witness:
  "(2::nat) \<le> 5
   \<and> invoke 2 two_funcs two_values 5 [] exhausted_state = (Some Template_fault, exhausted_state)
   \<and> ''5'' \<noteq> [] \<and> 2 \<le> decimal ''5''
   \<and> close_placeholder 2 two_funcs two_values ''5'' [] exhausted_state
       = (Some Template_fault, exhausted_state)
   \<and> 2 \<le> counter exhausted_state
   \<and> close_placeholder 2 two_funcs two_values [] [] exhausted_state
       = (Some Template_fault, exhausted_state)
   \<and> 2 < length two_funcs \<and> 2 < length two_values
   \<and> fst (format_scan 2 two_funcs two_values Literal ''{1}{5}'' exhausted_state)
       \<noteq> Some Out_of_bounds_read
   \<and> invoked (snd (format_fx format_impl [] ''{1}{5}'' two_args)) = [1]
   \<and> (1::nat) < length two_args
   \<and> format_fx format_impl [] ''{5}'' two_args
       = (Some Template_fault, \<lparr>out = [], counter = 0, invoked = []\<rparr>)
   \<and> is_digit CHR ''5'' \<and> CHR ''}'' \<notin> set ''x''
   \<and> format_scan 2 two_funcs two_values Literal ''{5}{1}{5}'' exhausted_state
       = (Some Template_fault, exhausted_state)
   \<and> format_scan 2 two_funcs two_values Literal ''{5:x}{1}{5}'' exhausted_state
       = (Some Template_fault, exhausted_state)
   \<and> format_scan 2 two_funcs two_values Literal ''{}{1}{5}'' exhausted_state
       = (Some Template_fault, exhausted_state)
   \<and> format_scan 2 two_funcs two_values Literal ''{:x}{1}{5}'' exhausted_state
       = (Some Template_fault, exhausted_state)"
proof -
  note inst = out_of_range_index_is_fault [of 2 5 two_funcs two_values "[]" exhausted_state
      "''5''" Literal "''{1}{5}''" "[]" "''{1}{5}''" two_args
      200 "letter_thunk CHR ''A''" 201 "letter_thunk CHR ''B''" "''x''"]
  have h1: "(2::nat) \<le> 5" by simp
  have h2: "''5'' \<noteq> [] \<and> 2 \<le> decimal ''5''" by (simp add: decimal_def)
  have h3: "2 \<le> counter exhausted_state" by (simp add: exhausted_state_def)
  have h4: "2 < length two_funcs \<and> 2 < length two_values"
    by (simp add: two_funcs_def two_values_def)
  have h5: "invoked (snd (format_fx format_impl [] ''{1}{5}'' two_args)) = [1]"
    by (simp add: engine_eval two_args_def letter_thunk_def)
  then have h6: "1 \<in> set (invoked (snd (format_fx format_impl [] ''{1}{5}'' two_args)))"
    by simp
  from inst h1
  have c1: "invoke 2 two_funcs two_values 5 [] exhausted_state = (Some Template_fault, exhausted_state)"
    by blast
  from inst h2
  have c2: "close_placeholder 2 two_funcs two_values ''5'' [] exhausted_state
       = (Some Template_fault, exhausted_state)"
    by blast
  from inst h3
  have c3: "close_placeholder 2 two_funcs two_values [] [] exhausted_state
       = (Some Template_fault, exhausted_state)"
    by blast
  from inst h4
  have c4: "fst (format_scan 2 two_funcs two_values Literal ''{1}{5}'' exhausted_state)
       \<noteq> Some Out_of_bounds_read"
    by blast
  from inst h6 have c5: "(1::nat) < length two_args" by blast
  from inst have c6: "format_fx format_impl [] ''{5}'' two_args
       = (Some Template_fault, \<lparr>out = [], counter = 0, invoked = []\<rparr>)"
    unfolding two_args_def by blast
  have h7: "(\<forall>c \<in> set ''5''. is_digit c) \<and> ''5'' \<noteq> [] \<and> 2 \<le> decimal ''5''
      \<and> CHR ''}'' \<notin> set ''x''"
    by (simp add: is_digit_def decimal_def)
  have h8: "2 \<le> counter exhausted_state \<and> CHR ''}'' \<notin> set ''x''"
    by (simp add: exhausted_state_def)
  from inst h7
  have "format_scan 2 two_funcs two_values Literal (CHR ''{'' # ''5'' @ CHR ''}'' # ''{1}{5}'') exhausted_state
          = (Some Template_fault, exhausted_state)
        \<and> format_scan 2 two_funcs two_values Literal
            (CHR ''{'' # ''5'' @ CHR '':'' # ''x'' @ CHR ''}'' # ''{1}{5}'') exhausted_state
          = (Some Template_fault, exhausted_state)"
    by blast
  then have c7: "format_scan 2 two_funcs two_values Literal ''{5}{1}{5}'' exhausted_state
       = (Some Template_fault, exhausted_state)
   \<and> format_scan 2 two_funcs two_values Literal ''{5:x}{1}{5}'' exhausted_state
       = (Some Template_fault, exhausted_state)"
    by (simp only: append_Cons append_Nil)
  from inst h8
  have "format_scan 2 two_funcs two_values Literal (CHR ''{'' # CHR ''}'' # ''{1}{5}'') exhausted_state
          = (Some Template_fault, exhausted_state)
        \<and> format_scan 2 two_funcs two_values Literal
            (CHR ''{'' # CHR '':'' # ''x'' @ CHR ''}'' # ''{1}{5}'') exhausted_state
          = (Some Template_fault, exhausted_state)"
    by blast
  then have c8: "format_scan 2 two_funcs two_values Literal ''{}{1}{5}'' exhausted_state
       = (Some Template_fault, exhausted_state)
   \<and> format_scan 2 two_funcs two_values Literal ''{:x}{1}{5}'' exhausted_state
       = (Some Template_fault, exhausted_state)"
    by (simp only: append_Cons append_Nil)
  have h9: "is_digit CHR ''5'' \<and> CHR ''}'' \<notin> set ''x''" by (simp add: is_digit_def)
  from h1 c1 h2 c2 h3 c3 h4 c4 h5 c5 c6 h9 c7 c8 show ?thesis by (intro conjI) simp_all
qed

end
